theory Spec2Isabelle
  imports Main "HOL-Library.Multiset" "HOL-Library.Product_Lexorder"
begin

section \<open>Python values\<close>

text \<open>
  The values an attribute store of \<^verbatim>\<open>lib/event.py\<close> holds. The module is Python 2:
  \<^verbatim>\<open>str\<close> is the byte string and, like \<^verbatim>\<open>unicode\<close>, an instance of the pair
  \<^verbatim>\<open>(str, unicode)\<close> the codec tests for, so both are \<open>PStr\<close>; \<^verbatim>\<open>int\<close> and
  \<^verbatim>\<open>long\<close> are \<open>PInt\<close>; \<^verbatim>\<open>list\<close> and \<^verbatim>\<open>tuple\<close> are \<open>PList\<close>. A float is kept
  as an opaque pair of mantissa and binary exponent: the module never computes with one,
  it only tests its type and its truth value. A value of any other type (a set, a
  datetime, an instance of some class) is \<open>PObject\<close>, kept by its truth value alone. A
  dictionary keeps its items in a list, in the order \<^verbatim>\<open>items()\<close> would give them.
\<close>

datatype pyval =
    PNone
  | PBool bool
  | PInt int
  | PFloat int int
  | PStr string
  | PDict "(string \<times> pyval) list"
  | PList "pyval list"
  | PObject bool

text \<open>Python's truth value testing, as \<^verbatim>\<open>not x\<close> and \<^verbatim>\<open>if x\<close> use it.\<close>

fun truthy :: "pyval \<Rightarrow> bool" where
  "truthy PNone = False"
| "truthy (PBool b) = b"
| "truthy (PInt i) = (i \<noteq> 0)"
| "truthy (PFloat m e) = (m \<noteq> 0)"
| "truthy (PStr s) = (s \<noteq> [])"
| "truthy (PDict kvs) = (kvs \<noteq> [])"
| "truthy (PList vs) = (vs \<noteq> [])"
| "truthy (PObject b) = b"

text \<open>
  The exceptions the module raises or lets through. \<open>RecursionDepthExceeded\<close> is the
  interpreter's \<^verbatim>\<open>RuntimeError: maximum recursion depth exceeded\<close>; \<open>NotModelled\<close>
  marks where this development stops short of Python 2: ordering values that are not
  integers against each other, reading an attribute of the object itself (a method, the
  store) as a value, and an address that names no object of the store, which no Python
  program can hold. \<open>UnsupportedAttributeType\<close> is the specification's name for the
  failure of encoding a value of an unsupported type.
\<close>

datatype error =
    AttributeError
  | TypeError
  | KeyError
  | ValueError
  | RuntimeError string
  | NotAnEventContainerOrObject
  | RecursionDepthExceeded
  | UnsupportedAttributeType
  | NotModelled

section \<open>Objects and the store\<close>

type_synonym ref = nat

type_synonym dict = "(string \<times> pyval) list"

text \<open>\<^verbatim>\<open>d.__setitem__(k, v)\<close>: replace the value of a present key, append a new one.\<close>

fun setitem :: "('k \<times> 'v) list \<Rightarrow> 'k \<Rightarrow> 'v \<Rightarrow> ('k \<times> 'v) list" where
  "setitem [] k v = [(k, v)]"
| "setitem ((k', v') # d) k v = (if k' = k then (k, v) # d else (k', v') # setitem d k v)"

record EventObject =
  eo_parent_container :: "ref option"
  eo_attributes :: dict

record EventContainer =
  events :: "ref list"
  containers :: "ref list"
  parent_container :: "ref option"
  first_timestamp :: int
  last_timestamp :: int
  attributes :: dict

text \<open>
  An object of the store is an \<^verbatim>\<open>EventObject\<close>, an \<^verbatim>\<open>EventContainer\<close>, or anything
  else (\<open>Other\<close>), which is what \<^verbatim>\<open>isinstance\<close> in \<^verbatim>\<open>Append\<close> tells apart. Objects
  are mutable and shared (a child holds a reference to its parent, the parent a list of
  references to its children), so they live in a store and are named by their address.
\<close>

datatype obj = Event EventObject | Container EventContainer | Other pyval

type_synonym heap = "obj list"

definition deref :: "heap \<Rightarrow> ref \<Rightarrow> obj option" where
  "deref h r = (if r < length h then Some (h ! r) else None)"

text \<open>\<^verbatim>\<open>EventContainer.__init__\<close> (lines 67-78) and \<^verbatim>\<open>EventObject.__init__\<close> (274-276).\<close>

definition EventContainer_init :: EventContainer where
  "EventContainer_init =
     \<lparr>events = [], containers = [], parent_container = None,
      first_timestamp = 0, last_timestamp = 0, attributes = []\<rparr>"

definition EventObject_init :: EventObject where
  "EventObject_init = \<lparr>eo_parent_container = None, eo_attributes = []\<rparr>"

section \<open>Length and attribute resolution\<close>

text \<open>
  \<^verbatim>\<open>EventContainer.__len__\<close> (lines 113-119). The first argument of every recursive
  method is the number of stack frames the interpreter still allows: Python stops a
  recursion that runs deeper with a \<^verbatim>\<open>RuntimeError\<close>, and a container that was
  appended to itself recurses for ever. \<^verbatim>\<open>len\<close> of an object without \<^verbatim>\<open>__len__\<close>
  is a \<^verbatim>\<open>TypeError\<close>.
\<close>

fun sum_lens :: "(ref \<Rightarrow> error + nat) \<Rightarrow> nat \<Rightarrow> ref list \<Rightarrow> error + nat" where
  "sum_lens f counter [] = Inr counter"
| "sum_lens f counter (c # cs) =
     (case f c of Inl e \<Rightarrow> Inl e | Inr k \<Rightarrow> sum_lens f (counter + k) cs)"

fun len :: "nat \<Rightarrow> heap \<Rightarrow> ref \<Rightarrow> error + nat" where
  "len 0 h c = Inl RecursionDepthExceeded"
| "len (Suc d) h c =
     (case deref h c of
        Some (Container ct) \<Rightarrow> sum_lens (len d h) (length (events ct)) (containers ct)
      | _ \<Rightarrow> Inl TypeError)"

text \<open>
  The truth value of \<^verbatim>\<open>self.parent_container\<close> in \<^verbatim>\<open>if self.parent_container:\<close>.
  \<^verbatim>\<open>EventContainer\<close> defines \<^verbatim>\<open>__len__\<close> and no \<^verbatim>\<open>__nonzero__\<close>, so a container is
  true exactly when its length is not zero; an object with neither method is true.
\<close>

definition nonzero :: "nat \<Rightarrow> heap \<Rightarrow> ref \<Rightarrow> error + bool" where
  "nonzero d h r =
     (case deref h r of
        Some (Container ct) \<Rightarrow> (case len d h r of Inl e \<Rightarrow> Inl e | Inr k \<Rightarrow> Inr (k \<noteq> 0))
      | Some (Event ev) \<Rightarrow> Inr True
      | Some (Other v) \<Rightarrow> Inr (truthy v)
      | None \<Rightarrow> Inl NotModelled)"

text \<open>\<^verbatim>\<open>EventContainer.GetValue\<close> (lines 121-145).\<close>

fun GetValue :: "nat \<Rightarrow> heap \<Rightarrow> ref \<Rightarrow> string \<Rightarrow> error + pyval" where
  "GetValue 0 h c attr = Inl RecursionDepthExceeded"
| "GetValue (Suc d) h c attr =
     (case deref h c of
        Some (Container ct) \<Rightarrow>
          (case map_of (attributes ct) attr of
             Some v \<Rightarrow> Inr v
           | None \<Rightarrow>
               (case parent_container ct of
                  None \<Rightarrow> Inl AttributeError
                | Some p \<Rightarrow>
                    (case nonzero d h p of
                       Inl e \<Rightarrow> Inl e
                     | Inr b \<Rightarrow> if b then GetValue d h p attr else Inl AttributeError)))
      | _ \<Rightarrow> Inl AttributeError)"

text \<open>
  \<^verbatim>\<open>EventObject.__getattr__\<close> (lines 286-308), for a name that is not an attribute of
  the class itself (\<^verbatim>\<open>timestamp\<close>, \<^verbatim>\<open>source_short\<close> and every other name of an
  attribute store): the lookup of \<^verbatim>\<open>object.__getattribute__\<close> fails, then the event's
  own store is read, then the parent's \<^verbatim>\<open>GetValue\<close>.
\<close>

definition getattr :: "nat \<Rightarrow> heap \<Rightarrow> ref \<Rightarrow> string \<Rightarrow> error + pyval" where
  "getattr d h e attr =
     (case deref h e of
        Some (Event ev) \<Rightarrow>
          (case map_of (eo_attributes ev) attr of
             Some v \<Rightarrow> Inr v
           | None \<Rightarrow>
               (case eo_parent_container ev of
                  None \<Rightarrow> Inl AttributeError
                | Some p \<Rightarrow>
                    (case nonzero d h p of
                       Inl e \<Rightarrow> Inl e
                     | Inr b \<Rightarrow> if b then GetValue d h p attr else Inl AttributeError)))
      | _ \<Rightarrow> Inl AttributeError)"

section \<open>Append\<close>

text \<open>
  \<^verbatim>\<open>EventContainer._Append\<close> (lines 204-222). \<open>storage\<close> names which of the
  container's two lists the caller passed. The timestamps are integers here, so no
  statement of the body can raise; the three steps are the back-reference
  (\<open>set_parent\<close>), \<^verbatim>\<open>storage.append(item)\<close> (\<open>store_item\<close>) and the five \<^verbatim>\<open>if\<close>
  statements on the timestamps (\<open>update_range\<close>).
\<close>

datatype storage = events_storage | containers_storage

definition set_parent :: "heap \<Rightarrow> ref \<Rightarrow> ref \<Rightarrow> heap" where
  "set_parent h item self =
     (case deref h item of
        Some (Event ev) \<Rightarrow> h[item := Event (ev\<lparr>eo_parent_container := Some self\<rparr>)]
      | Some (Container ct) \<Rightarrow> h[item := Container (ct\<lparr>parent_container := Some self\<rparr>)]
      | _ \<Rightarrow> h)"

definition store_item :: "EventContainer \<Rightarrow> storage \<Rightarrow> ref \<Rightarrow> EventContainer" where
  "store_item ct st item =
     (case st of
        events_storage \<Rightarrow> ct\<lparr>events := events ct @ [item]\<rparr>
      | containers_storage \<Rightarrow> ct\<lparr>containers := containers ct @ [item]\<rparr>)"

definition update_range :: "EventContainer \<Rightarrow> int \<Rightarrow> int option \<Rightarrow> EventContainer" where
  "update_range ct timestamp_first timestamp_last_arg =
     (let timestamp_last =
            (case timestamp_last_arg of
               None \<Rightarrow> timestamp_first
             | Some t \<Rightarrow> if t = 0 then timestamp_first else t);
          ct1 = (if last_timestamp ct = 0 then ct\<lparr>last_timestamp := timestamp_last\<rparr> else ct);
          ct2 = (if first_timestamp ct1 = 0 then ct1\<lparr>first_timestamp := timestamp_first\<rparr>
                 else ct1);
          ct3 = (if timestamp_last > last_timestamp ct2
                 then ct2\<lparr>last_timestamp := timestamp_last\<rparr> else ct2)
      in if timestamp_first < first_timestamp ct3
         then ct3\<lparr>first_timestamp := timestamp_first\<rparr> else ct3)"

definition internal_Append ::
  "heap \<Rightarrow> ref \<Rightarrow> ref \<Rightarrow> storage \<Rightarrow> int \<Rightarrow> int option \<Rightarrow> heap" where
  "internal_Append h self item st timestamp_first timestamp_last =
     (let h1 = set_parent h item self
      in case deref h1 self of
           Some (Container ct) \<Rightarrow>
             h1[self := Container
                  (update_range (store_item ct st item) timestamp_first timestamp_last)]
         | _ \<Rightarrow> h1)"

text \<open>
  \<^verbatim>\<open>EventContainer.Append\<close> (lines 180-202). The result is the store as the call
  leaves it and the exception it raised, if any. \<^verbatim>\<open>item.timestamp\<close> is evaluated
  before \<^verbatim>\<open>_Append\<close> is entered; an \<^verbatim>\<open>AttributeError\<close> or \<^verbatim>\<open>TypeError\<close> is caught
  and replaced, any other exception passes through.
\<close>

definition Append :: "nat \<Rightarrow> heap \<Rightarrow> ref \<Rightarrow> ref \<Rightarrow> heap \<times> error option" where
  "Append d h self item =
     (case deref h item of
        Some (Event ev) \<Rightarrow>
          (case getattr d h item ''timestamp'' of
             Inr (PInt t) \<Rightarrow> (internal_Append h self item events_storage t None, None)
           | Inr _ \<Rightarrow> (h, Some NotModelled)
           | Inl AttributeError \<Rightarrow> (h, Some NotAnEventContainerOrObject)
           | Inl TypeError \<Rightarrow> (h, Some NotAnEventContainerOrObject)
           | Inl e \<Rightarrow> (h, Some e))
      | Some (Container ct) \<Rightarrow>
          (internal_Append h self item containers_storage
             (first_timestamp ct) (Some (last_timestamp ct)), None)
      | _ \<Rightarrow> (h, Some NotAnEventContainerOrObject))"

text \<open>A sequence of \<^verbatim>\<open>Append\<close> calls on one container, stopping at the first exception.\<close>

fun Append_all :: "nat \<Rightarrow> heap \<Rightarrow> ref \<Rightarrow> ref list \<Rightarrow> heap \<times> error option" where
  "Append_all d h self [] = (h, None)"
| "Append_all d h self (item # items) =
     (case Append d h self item of
        (h', None) \<Rightarrow> Append_all d h' self items
      | (h', Some e) \<Rightarrow> (h', Some e))"

section \<open>Ordered iteration\<close>

text \<open>
  \<^verbatim>\<open>heapq\<close> is the standard library's priority queue; it is modelled by its contract:
  \<^verbatim>\<open>heappush\<close> adds an item, \<^verbatim>\<open>heappop\<close> removes and returns the smallest one and
  raises \<^verbatim>\<open>IndexError\<close> on an empty queue. The items are the tuples
  \<^verbatim>\<open>(event.timestamp, event)\<close>; Python compares tuples lexicographically, and two
  events, which define no comparison of their own, by their addresses, which is the
  order of \<open>int \<times> ref\<close>.
\<close>

type_synonym heapq = "(int \<times> ref) list"

definition heappush :: "heapq \<Rightarrow> int \<times> ref \<Rightarrow> heapq" where
  "heappush q x = x # q"

definition heappop :: "heapq \<Rightarrow> error + (int \<times> ref) \<times> heapq" where
  "heappop q =
     (case q of
        [] \<Rightarrow> Inl (RuntimeError ''IndexError: index out of range'')
      | x # xs \<Rightarrow> (let m = fold min xs x in Inr (m, remove1 m q)))"

text \<open>
  The first two loops of \<^verbatim>\<open>EventContainer.__iter__\<close> (lines 171-175). \<open>ts\<close> reads
  \<^verbatim>\<open>event.timestamp\<close>, \<open>it\<close> iterates a child container.
\<close>

fun push_events ::
  "(ref \<Rightarrow> error + pyval) \<Rightarrow> ref list \<Rightarrow> heapq \<Rightarrow> error + heapq" where
  "push_events ts [] q = Inr q"
| "push_events ts (e # es) q =
     (case ts e of
        Inl err \<Rightarrow> Inl err
      | Inr (PInt t) \<Rightarrow> push_events ts es (heappush q (t, e))
      | Inr _ \<Rightarrow> Inl NotModelled)"

fun push_containers ::
  "(ref \<Rightarrow> error + ref list) \<Rightarrow> (ref \<Rightarrow> error + pyval) \<Rightarrow> ref list \<Rightarrow> heapq
     \<Rightarrow> error + heapq" where
  "push_containers it ts [] q = Inr q"
| "push_containers it ts (c # cs) q =
     (case it c of
        Inl err \<Rightarrow> Inl err
      | Inr evs \<Rightarrow>
          (case push_events ts evs q of
             Inl err \<Rightarrow> Inl err
           | Inr q' \<Rightarrow> push_containers it ts cs q'))"

text \<open>The last loop (lines 177-178): as many \<^verbatim>\<open>heappop\<close>s as the queue has items.\<close>

fun drain :: "nat \<Rightarrow> heapq \<Rightarrow> error + ref list" where
  "drain 0 q = Inr []"
| "drain (Suc n) q =
     (case heappop q of
        Inl err \<Rightarrow> Inl err
      | Inr (x, q') \<Rightarrow> (case drain n q' of Inl err \<Rightarrow> Inl err | Inr es \<Rightarrow> Inr (snd x # es)))"

text \<open>
  \<^verbatim>\<open>EventContainer.__iter__\<close> (lines 167-178): the events the generator yields, in
  the order it yields them, or the exception it raises.
\<close>

fun iter :: "nat \<Rightarrow> heap \<Rightarrow> ref \<Rightarrow> error + ref list" where
  "iter 0 h c = Inl RecursionDepthExceeded"
| "iter (Suc d) h c =
     (case deref h c of
        Some (Container ct) \<Rightarrow>
          (case push_events (\<lambda>e. getattr d h e ''timestamp'') (events ct) [] of
             Inl err \<Rightarrow> Inl err
           | Inr q \<Rightarrow>
               (case push_containers (iter d h) (\<lambda>e. getattr d h e ''timestamp'')
                       (containers ct) q of
                  Inl err \<Rightarrow> Inl err
                | Inr q' \<Rightarrow> drain (length q') q'))
      | _ \<Rightarrow> Inl TypeError)"

text \<open>
  The specification's side of the iteration claim: the events of the subtree rooted at
  a container (its direct events, then those of each child container), and the
  timestamp the iteration reads for an event.
\<close>

fun subtree_events :: "nat \<Rightarrow> heap \<Rightarrow> ref \<Rightarrow> ref list" where
  "subtree_events 0 h c = []"
| "subtree_events (Suc d) h c =
     (case deref h c of
        Some (Container ct) \<Rightarrow> events ct @ concat (map (subtree_events d h) (containers ct))
      | _ \<Rightarrow> [])"

definition timestamp_key :: "nat \<Rightarrow> heap \<Rightarrow> ref \<Rightarrow> int option" where
  "timestamp_key d h e =
     (case getattr d h e ''timestamp'' of Inr (PInt t) \<Rightarrow> Some t | _ \<Rightarrow> None)"

text \<open>The queue item \<^verbatim>\<open>(event.timestamp, event)\<close> of an event whose timestamp is read.\<close>

definition keyed :: "nat \<Rightarrow> heap \<Rightarrow> ref \<Rightarrow> int \<times> ref" where
  "keyed d h e = (the (timestamp_key d h e), e)"

section \<open>Example stores\<close>

text \<open>
  An event that carries only a timestamp, as \<^verbatim>\<open>e = EventObject(); e.timestamp = t\<close>
  builds it (\<^verbatim>\<open>__setattr__\<close>, lines 278-284, stores a name the class does not define
  in the attribute store).
\<close>

definition timestamped :: "int \<Rightarrow> obj" where
  "timestamped t =
     Event (EventObject_init\<lparr>eo_attributes := setitem [] ''timestamp'' (PInt t)\<rparr>)"

text \<open>
  The specification's example: a fresh container (address 0) receives events with the
  timestamps 5, 1 and 3, a second fresh container (address 1) those with 2 and 4, and
  then the first receives the second.
\<close>

definition example_store :: heap where
  "example_store =
     [Container EventContainer_init, Container EventContainer_init,
      timestamped 5, timestamped 1, timestamped 3, timestamped 2, timestamped 4]"

definition example_appended :: heap where
  "example_appended =
     fst (Append 0
            (fst (Append_all 0 (fst (Append_all 0 example_store 0 [2, 3, 4])) 1 [5, 6])) 0 1)"

text \<open>The cached range of a container, as a reader of its two attributes sees it.\<close>

definition cached_range :: "heap \<Rightarrow> ref \<Rightarrow> (int \<times> int) option" where
  "cached_range h c =
     (case deref h c of
        Some (Container ct) \<Rightarrow> Some (first_timestamp ct, last_timestamp ct)
      | _ \<Rightarrow> None)"

text \<open>
  A fresh container (address 0) and two events, one of them at timestamp 0, the Unix
  epoch; and a fresh container with three events.
\<close>

definition zero_store :: heap where
  "zero_store = [Container EventContainer_init, timestamped 0, timestamped 5]"

definition shrink_store :: heap where
  "shrink_store =
     [Container EventContainer_init, timestamped 5, timestamped 0, timestamped 7]"

text \<open>
  A container that holds the attribute \<^verbatim>\<open>hostname\<close> (address 0), as the class's
  docstring pictures it, and a fresh container for one parsed file (address 1), which
  the first receives before any event exists; and the same with a third container
  (address 2) below the second.
\<close>

definition hostname_store :: heap where
  "hostname_store =
     fst (Append 0
            [Container (EventContainer_init
               \<lparr>attributes := setitem [] ''hostname'' (PStr ''host-a'')\<rparr>),
             Container EventContainer_init] 0 1)"

definition hostname_chain_store :: heap where
  "hostname_chain_store =
     fst (Append 0
            (fst (Append 0
               [Container (EventContainer_init
                  \<lparr>attributes := setitem [] ''hostname'' (PStr ''host-a'')\<rparr>),
                Container EventContainer_init, Container EventContainer_init] 0 1)) 1 2)"

text \<open>
  A store for the error cases of \<^verbatim>\<open>Append\<close>: a container with one event (addresses
  0 and 1), an object that is neither an event nor a container (2), and an event that
  has no timestamp (3).
\<close>

definition append_error_store :: heap where
  "append_error_store =
     fst (Append 0
            [Container EventContainer_init, timestamped 7, Other (PStr ''not an event''),
             Event (EventObject_init\<lparr>eo_attributes := setitem [] ''note'' (PStr ''x'')\<rparr>)]
            0 1)"

text \<open>
  A store for the frame of \<^verbatim>\<open>Append\<close>: a parent (address 0) that has received a
  child (address 1) which held one event (address 2), and a further event (address 3).
\<close>

definition parent_child_store :: heap where
  "parent_child_store =
     fst (Append 0
            (fst (Append 0
               [Container EventContainer_init, Container EventContainer_init,
                timestamped 4, timestamped 9] 1 2)) 0 1)"

section \<open>The wire messages\<close>

text \<open>
  \<^verbatim>\<open>plaso_storage_pb2\<close> is generated from the protobuf schema, which is not among the
  sources; the messages are modelled by what the module reads and writes of them. An
  \<^verbatim>\<open>Attribute\<close> (and a \<^verbatim>\<open>Value\<close>, an attribute without a key) has the optional
  fields \<^verbatim>\<open>key\<close>, \<^verbatim>\<open>string\<close>, \<^verbatim>\<open>integer\<close>, \<^verbatim>\<open>boolean\<close>, \<^verbatim>\<open>dict\<close> (a list of
  attributes), \<^verbatim>\<open>array\<close> (a list of values) and \<^verbatim>\<open>data\<close>; a field that is
  \<open>None\<close> is not set (\<^verbatim>\<open>HasField\<close> is false). A message can have none of the value
  fields set, or more than one.
\<close>

datatype Attribute =
  Attribute (a_key: "string option") (a_string: "string option") (a_integer: "int option")
    (a_boolean: "bool option") (a_dict: "Attribute list option")
    (a_array: "Attribute list option") (a_data: "string option")

text \<open>
  The \<^verbatim>\<open>EventObject\<close> message: the scalar fields that are set (name and value), the
  enum field \<^verbatim>\<open>source_short\<close>, the sub-message \<^verbatim>\<open>pathspec\<close> and the repeated field
  \<^verbatim>\<open>attributes\<close>.

  Modelled from the spec: \<^verbatim>\<open>transmission_pb2.PathSpec\<close>, the type of the
  \<^verbatim>\<open>pathspec\<close> field, is missing from the sources; the specification has the codec
  copy the attribute's bytes into the field and back without interpreting them, so the
  field holds the bytes that \<^verbatim>\<open>MergeFromString\<close> was given and
  \<^verbatim>\<open>SerializeToString\<close> returns them.
\<close>

record EventObject_proto =
  p_fields :: "(string \<times> pyval) list"
  p_source_short :: "int option"
  p_pathspec :: "string option"
  p_attributes :: "Attribute list"

definition EventObject_proto_init :: EventObject_proto where
  "EventObject_proto_init =
     \<lparr>p_fields = [], p_source_short = None, p_pathspec = None, p_attributes = []\<rparr>"

text \<open>What \<^verbatim>\<open>FromProto\<close> can be handed: the expected message or any other object.\<close>

datatype message = EventObject_message EventObject_proto | Other_message

text \<open>
  The fixed schema of the \<^verbatim>\<open>EventObject\<close> message is a parameter of the codec: a
  list of the names for which \<^verbatim>\<open>hasattr(proto, name)\<close> holds, each with what
  \<^verbatim>\<open>setattr\<close> accepts for it. The protobuf runtime, which is not among the sources,
  checks an assignment; the check is modelled by the types of the specification: an
  \<^verbatim>\<open>int64\<close> field takes an integer within range (\<^verbatim>\<open>ValueError\<close> outside, and a
  \<^verbatim>\<open>bool\<close> is an integer), a \<^verbatim>\<open>string\<close> field takes text, any other value is a
  \<^verbatim>\<open>TypeError\<close>; a repeated field, a sub-message and a method of the message cannot be
  assigned to (\<^verbatim>\<open>AttributeError\<close>).
\<close>

datatype field_type = Int64 | String | Unassignable

definition int64 :: "int \<Rightarrow> bool" where
  "int64 i = (- (2 ^ 63) \<le> i \<and> i < 2 ^ 63)"

definition setattr_proto ::
  "EventObject_proto \<Rightarrow> string \<Rightarrow> field_type \<Rightarrow> pyval \<Rightarrow> error + EventObject_proto" where
  "setattr_proto proto name ty v =
     (case ty of
        Unassignable \<Rightarrow> Inl AttributeError
      | Int64 \<Rightarrow>
          (case v of
             PInt i \<Rightarrow>
               if int64 i then Inr (proto\<lparr>p_fields := setitem (p_fields proto) name (PInt i)\<rparr>)
               else Inl ValueError
           | PBool b \<Rightarrow>
               Inr (proto\<lparr>p_fields := setitem (p_fields proto) name (PInt (if b then 1 else 0))\<rparr>)
           | _ \<Rightarrow> Inl TypeError)
      | String \<Rightarrow>
          (case v of
             PStr s \<Rightarrow> Inr (proto\<lparr>p_fields := setitem (p_fields proto) name (PStr s)\<rparr>)
           | _ \<Rightarrow> Inl TypeError))"

text \<open>
  The two class-level tables (lines 262-269), built from the values of the enum
  \<^verbatim>\<open>SourceShort\<close>, which are a parameter (name and number, in the order of the
  descriptor). \<^verbatim>\<open>d.setdefault(k)\<close> returns \<^verbatim>\<open>d[k]\<close> and, when the key is absent,
  first stores \<^verbatim>\<open>None\<close> under it; it does not give the dictionary a default for
  other keys.
\<close>

definition setdefault :: "('k \<times> pyval) list \<Rightarrow> 'k \<Rightarrow> ('k \<times> pyval) list" where
  "setdefault m k = (case map_of m k of Some v \<Rightarrow> m | None \<Rightarrow> setitem m k PNone)"

definition SOURCE_SHORT_FROM_PROTO_MAP :: "(string \<times> int) list \<Rightarrow> (int \<times> pyval) list" where
  "SOURCE_SHORT_FROM_PROTO_MAP enum =
     setdefault (fold (\<lambda>(name, number) m. setitem m number (PStr name)) enum []) 6"

definition SOURCE_SHORT_TO_PROTO_MAP :: "(string \<times> int) list \<Rightarrow> (string \<times> pyval) list" where
  "SOURCE_SHORT_TO_PROTO_MAP enum =
     setdefault (fold (\<lambda>(name, number) m. setitem m name (PInt number)) enum []) ''LOG''"

section \<open>GetAttributes\<close>

text \<open>
  \<^verbatim>\<open>EventContainer.GetAttributes\<close> (lines 147-165) and \<^verbatim>\<open>EventObject.GetAttributes\<close>
  (lines 310-317). The result is a set; it is kept as a list without repetitions, which
  fixes one of the orders in which Python may iterate it.
\<close>

fun GetAttributes :: "nat \<Rightarrow> heap \<Rightarrow> ref \<Rightarrow> error + string list" where
  "GetAttributes 0 h c = Inl RecursionDepthExceeded"
| "GetAttributes (Suc d) h c =
     (case deref h c of
        Some (Container ct) \<Rightarrow>
          (case parent_container ct of
             None \<Rightarrow> Inr (remdups (map fst (attributes ct)))
           | Some p \<Rightarrow>
               (case nonzero d h p of
                  Inl e \<Rightarrow> Inl e
                | Inr b \<Rightarrow>
                    if b then
                      (case GetAttributes d h p of
                         Inl e \<Rightarrow> Inl e
                       | Inr res \<Rightarrow> Inr (remdups (map fst (attributes ct) @ res)))
                    else Inr (remdups (map fst (attributes ct)))))
      | _ \<Rightarrow> Inl AttributeError)"

definition EventObject_GetAttributes :: "nat \<Rightarrow> heap \<Rightarrow> ref \<Rightarrow> error + string list" where
  "EventObject_GetAttributes d h e =
     (case deref h e of
        Some (Event ev) \<Rightarrow>
          (case eo_parent_container ev of
             None \<Rightarrow> Inr (remdups (map fst (eo_attributes ev)))
           | Some p \<Rightarrow>
               (case nonzero d h p of
                  Inl e \<Rightarrow> Inl e
                | Inr b \<Rightarrow>
                    if b then
                      (case GetAttributes d h p of
                         Inl e \<Rightarrow> Inl e
                       | Inr res \<Rightarrow> Inr (remdups (map fst (eo_attributes ev) @ res)))
                    else Inr (remdups (map fst (eo_attributes ev)))))
      | _ \<Rightarrow> Inl AttributeError)"

section \<open>Encoding\<close>

text \<open>
  Modelled from the spec: the protobuf runtime, which checks the assignment
  \<^verbatim>\<open>proto.data = value\<close> of line 494, is missing from the sources. The field holds
  bytes, and the specification has the encoding of a value of any type outside string,
  integer, boolean, bytes, mapping and sequence fail with \<^verbatim>\<open>UnsupportedAttributeType\<close>
  rather than be converted.
\<close>

definition assign_data :: "pyval \<Rightarrow> error + string" where
  "assign_data v = (case v of PStr bytes \<Rightarrow> Inr bytes | _ \<Rightarrow> Inl UnsupportedAttributeType)"

text \<open>
  \<^verbatim>\<open>EventObject._AttributeToProto\<close> (lines 450-494). \<open>gus\<close> is
  \<^verbatim>\<open>utils.GetUnicodeString\<close>, a parameter (\<^verbatim>\<open>plaso/lib/utils.py\<close> is not among the
  sources). The tests run in the order of the source: text, then \<^verbatim>\<open>(int, long)\<close>,
  which a \<^verbatim>\<open>bool\<close> also is, so that the \<^verbatim>\<open>bool\<close> branch is never reached and a
  boolean is written to the \<^verbatim>\<open>integer\<close> field; then dictionary and list. Every other
  value (\<^verbatim>\<open>None\<close>, a float, any other object) reaches \<^verbatim>\<open>proto.data = value\<close>. An
  integer out of the range of the field \<^verbatim>\<open>integer\<close>, which the specification types
  as 64-bit signed, is refused by the runtime (\<^verbatim>\<open>ValueError\<close>).
\<close>

definition key_of :: "string \<Rightarrow> string option" where
  "key_of name = (if name = [] then None else Some name)"

definition data_attribute :: "string \<Rightarrow> pyval \<Rightarrow> error + Attribute" where
  "data_attribute name v =
     (case assign_data v of
        Inl e \<Rightarrow> Inl e
      | Inr bytes \<Rightarrow> Inr (Attribute (key_of name) None None None None None (Some bytes)))"

fun AttributeToProto :: "(string \<Rightarrow> string) \<Rightarrow> string \<Rightarrow> pyval \<Rightarrow> error + Attribute"
  and DictToProto :: "(string \<Rightarrow> string) \<Rightarrow> (string \<times> pyval) list \<Rightarrow> error + Attribute list"
  and ArrayToProto :: "(string \<Rightarrow> string) \<Rightarrow> pyval list \<Rightarrow> error + Attribute list"
where
  "AttributeToProto gus name (PStr s) =
     Inr (Attribute (key_of name) (Some (gus s)) None None None None None)"
| "AttributeToProto gus name (PInt i) =
     (if int64 i then Inr (Attribute (key_of name) None (Some i) None None None None)
      else Inl ValueError)"
| "AttributeToProto gus name (PBool b) =
     Inr (Attribute (key_of name) None (Some (if b then 1 else 0)) None None None None)"
| "AttributeToProto gus name (PDict kvs) =
     (case DictToProto gus kvs of
        Inl e \<Rightarrow> Inl e
      | Inr subs \<Rightarrow> Inr (Attribute (key_of name) None None None (Some subs) None None))"
| "AttributeToProto gus name (PList vs) =
     (case ArrayToProto gus vs of
        Inl e \<Rightarrow> Inl e
      | Inr subs \<Rightarrow> Inr (Attribute (key_of name) None None None None (Some subs) None))"
| "AttributeToProto gus name PNone = data_attribute name PNone"
| "AttributeToProto gus name (PFloat m e) = data_attribute name (PFloat m e)"
| "AttributeToProto gus name (PObject b) = data_attribute name (PObject b)"
| "DictToProto gus [] = Inr []"
| "DictToProto gus ((dict_key, dict_value) # kvs) =
     (case AttributeToProto gus dict_key dict_value of
        Inl e \<Rightarrow> Inl e
      | Inr sub \<Rightarrow>
          (case DictToProto gus kvs of Inl e \<Rightarrow> Inl e | Inr subs \<Rightarrow> Inr (sub # subs)))"
| "ArrayToProto gus [] = Inr []"
| "ArrayToProto gus (list_value # vs) =
     (case AttributeToProto gus [] list_value of
        Inl e \<Rightarrow> Inl e
      | Inr sub \<Rightarrow>
          (case ArrayToProto gus vs of Inl e \<Rightarrow> Inl e | Inr subs \<Rightarrow> Inr (sub # subs)))"

text \<open>
  \<^verbatim>\<open>getattr(self, attribute_name)\<close> of lines 513 and 520 is the interpreter's lookup,
  and \<^verbatim>\<open>__getattr__\<close> is called only where that finds nothing. It finds what the
  object and its class hold under the name: the two instance attributes, the names bound
  in the body of the class (the two tables, the methods, and \<^verbatim>\<open>value\<close>, the variable
  of the loop of lines 264-267, which stays bound when the enum has a value), and what
  every class has from \<^verbatim>\<open>object\<close>. What is read then is an object of the interpreter,
  not a value of an attribute store, and the encoding of such a name is not modelled;
  every other name is resolved by \<^verbatim>\<open>__getattr__\<close>.
\<close>

definition EventObject_class_names :: "(string \<times> int) list \<Rightarrow> string list" where
  "EventObject_class_names enum =
     [''parent_container'', ''attributes'', ''_SOURCE_SHORT_FROM_PROTO_MAP'',
      ''_SOURCE_SHORT_TO_PROTO_MAP'', ''__init__'', ''__setattr__'', ''__getattr__'',
      ''GetAttributes'', ''__str__'', ''_AttributeFromProto'', ''FromProto'',
      ''ToProtoString'', ''FromProtoString'', ''_AttributeToProto'', ''ToProto'',
      ''__doc__'', ''__module__'', ''__dict__'', ''__weakref__'', ''__class__'',
      ''__delattr__'', ''__format__'', ''__getattribute__'', ''__hash__'', ''__new__'',
      ''__reduce__'', ''__reduce_ex__'', ''__repr__'', ''__sizeof__'',
      ''__subclasshook__'']
     @ (if enum = [] then [] else [''value''])"

definition builtin_getattr ::
  "(string \<times> int) list \<Rightarrow> nat \<Rightarrow> heap \<Rightarrow> ref \<Rightarrow> string \<Rightarrow> error + pyval" where
  "builtin_getattr enum d h self name =
     (if name \<in> set (EventObject_class_names enum) then Inl NotModelled
      else getattr d h self name)"

text \<open>
  The body of the loop of \<^verbatim>\<open>EventObject.ToProto\<close> (lines 505-529) for one attribute
  name. \<open>schema\<close> and \<open>enum\<close> are the fixed fields of the message and the values of
  \<^verbatim>\<open>SourceShort\<close>. Indexing the table with a name it does not hold is a
  \<^verbatim>\<open>KeyError\<close>, with a list or a dictionary a \<^verbatim>\<open>TypeError\<close> (unhashable).
  \<^verbatim>\<open>self.source_short\<close> and \<^verbatim>\<open>self.pathspec\<close> are names the class does not
  define, so \<^verbatim>\<open>__getattr__\<close> resolves them.
\<close>

definition is_bool_or_int :: "pyval \<Rightarrow> bool" where
  "is_bool_or_int v = (case v of PBool b \<Rightarrow> True | PInt i \<Rightarrow> True | _ \<Rightarrow> False)"

definition ToProto_attribute ::
  "(string \<Rightarrow> string) \<Rightarrow> (string \<times> field_type) list \<Rightarrow> (string \<times> int) list \<Rightarrow>
     nat \<Rightarrow> heap \<Rightarrow> ref \<Rightarrow> string \<Rightarrow> EventObject_proto \<Rightarrow> error + EventObject_proto" where
  "ToProto_attribute gus schema enum d h self attribute_name proto =
     (if attribute_name = ''source_short'' then
        (case getattr d h self ''source_short'' of
           Inl e \<Rightarrow> Inl e
         | Inr (PStr s) \<Rightarrow>
             (case map_of (SOURCE_SHORT_TO_PROTO_MAP enum) s of
                None \<Rightarrow> Inl KeyError
              | Some (PInt code) \<Rightarrow> Inr (proto\<lparr>p_source_short := Some code\<rparr>)
              | Some _ \<Rightarrow> Inl TypeError)
         | Inr (PDict kvs) \<Rightarrow> Inl TypeError
         | Inr (PList vs) \<Rightarrow> Inl TypeError
         | Inr _ \<Rightarrow> Inl KeyError)
      else if attribute_name = ''pathspec'' then
        (case getattr d h self ''pathspec'' of
           Inl e \<Rightarrow> Inl e
         | Inr (PStr bytes) \<Rightarrow> Inr (proto\<lparr>p_pathspec := Some bytes\<rparr>)
         | Inr _ \<Rightarrow> Inl TypeError)
      else
        (case map_of schema attribute_name of
           Some ty \<Rightarrow>
             (case builtin_getattr enum d h self attribute_name of
                Inl e \<Rightarrow> Inl e
              | Inr attribute_value \<Rightarrow>
                  setattr_proto proto attribute_name ty
                    (case attribute_value of PStr s \<Rightarrow> PStr (gus s) | v \<Rightarrow> v))
         | None \<Rightarrow>
             (case builtin_getattr enum d h self attribute_name of
                Inl e \<Rightarrow> Inl e
              | Inr attribute_value \<Rightarrow>
                  if is_bool_or_int attribute_value \<or> truthy attribute_value then
                    (case AttributeToProto gus attribute_name attribute_value of
                       Inl e \<Rightarrow> Inl e
                     | Inr proto_attribute \<Rightarrow>
                         Inr (proto\<lparr>p_attributes := p_attributes proto @ [proto_attribute]\<rparr>))
                  else Inr proto)))"

fun ToProto_loop ::
  "(string \<Rightarrow> EventObject_proto \<Rightarrow> error + EventObject_proto) \<Rightarrow> string list \<Rightarrow>
     EventObject_proto \<Rightarrow> error + EventObject_proto" where
  "ToProto_loop body [] proto = Inr proto"
| "ToProto_loop body (attribute_name # names) proto =
     (case body attribute_name proto of
        Inl e \<Rightarrow> Inl e
      | Inr proto' \<Rightarrow> ToProto_loop body names proto')"

text \<open>\<^verbatim>\<open>EventObject.ToProto\<close> (lines 496-531).\<close>

definition ToProto ::
  "(string \<Rightarrow> string) \<Rightarrow> (string \<times> field_type) list \<Rightarrow> (string \<times> int) list \<Rightarrow>
     nat \<Rightarrow> heap \<Rightarrow> ref \<Rightarrow> error + EventObject_proto" where
  "ToProto gus schema enum d h self =
     (case EventObject_GetAttributes d h self of
        Inl e \<Rightarrow> Inl e
      | Inr names \<Rightarrow>
          ToProto_loop (ToProto_attribute gus schema enum d h self) names
            EventObject_proto_init)"

section \<open>Decoding\<close>

text \<open>
  \<^verbatim>\<open>EventObject._AttributeFromProto\<close> (lines 348-403): the first value field that is
  set decides, in the order string, integer, boolean, dict, array, data; a message
  without a key has the key \<^verbatim>\<open>u''\<close>. The two loops over the nested messages are
  \<open>DictFromProto\<close> (which also is \<^verbatim>\<open>dict(...)\<close> of the pairs, as \<^verbatim>\<open>FromProto\<close> builds
  it: a later pair replaces an earlier one of the same key) and \<open>ArrayFromProto\<close>.
\<close>

definition proto_key :: "string option \<Rightarrow> string" where
  "proto_key k = (case k of None \<Rightarrow> [] | Some name \<Rightarrow> name)"

fun AttributeFromProto :: "Attribute \<Rightarrow> error + string \<times> pyval"
  and DictFromProto :: "Attribute list \<Rightarrow> dict \<Rightarrow> error + dict"
  and ArrayFromProto :: "Attribute list \<Rightarrow> error + pyval list"
where
  "AttributeFromProto (Attribute k (Some s) i b d a dt) = Inr (proto_key k, PStr s)"
| "AttributeFromProto (Attribute k None (Some i) b d a dt) = Inr (proto_key k, PInt i)"
| "AttributeFromProto (Attribute k None None (Some b) d a dt) = Inr (proto_key k, PBool b)"
| "AttributeFromProto (Attribute k None None None (Some subs) a dt) =
     (case DictFromProto subs [] of
        Inl e \<Rightarrow> Inl e
      | Inr v \<Rightarrow> Inr (proto_key k, PDict v))"
| "AttributeFromProto (Attribute k None None None None (Some subs) dt) =
     (case ArrayFromProto subs of
        Inl e \<Rightarrow> Inl e
      | Inr v \<Rightarrow> Inr (proto_key k, PList v))"
| "AttributeFromProto (Attribute k None None None None None (Some bytes)) =
     Inr (proto_key k, PStr bytes)"
| "AttributeFromProto (Attribute k None None None None None None) =
     Inl (RuntimeError ''Unsupported proto attribute type.'')"
| "DictFromProto [] acc = Inr acc"
| "DictFromProto (proto_dict # subs) acc =
     (case AttributeFromProto proto_dict of
        Inl e \<Rightarrow> Inl e
      | Inr (dict_key, dict_value) \<Rightarrow> DictFromProto subs (setitem acc dict_key dict_value))"
| "ArrayFromProto [] = Inr []"
| "ArrayFromProto (proto_array # subs) =
     (case AttributeFromProto proto_array of
        Inl e \<Rightarrow> Inl e
      | Inr (uu, list_value) \<Rightarrow>
          (case ArrayFromProto subs of Inl e \<Rightarrow> Inl e | Inr vs \<Rightarrow> Inr (list_value # vs)))"

text \<open>
  \<^verbatim>\<open>proto.ListFields()\<close>: the fields of the message that are set. The runtime lists
  them by field number, which the schema fixes; here the scalar fields come first. The
  loop of \<^verbatim>\<open>FromProto\<close> (lines 419-432) stores each but \<^verbatim>\<open>attributes\<close> in the
  event's store and stops where the table of \<^verbatim>\<open>source_short\<close> has no entry
  (\<^verbatim>\<open>KeyError\<close>); it returns the store as it then is.
\<close>

datatype field =
    scalar_field string pyval
  | source_short_field int
  | pathspec_field string
  | attributes_field

definition ListFields :: "EventObject_proto \<Rightarrow> field list" where
  "ListFields proto =
     map (\<lambda>(name, v). scalar_field name v) (p_fields proto)
     @ (case p_source_short proto of None \<Rightarrow> [] | Some code \<Rightarrow> [source_short_field code])
     @ (case p_pathspec proto of None \<Rightarrow> [] | Some bytes \<Rightarrow> [pathspec_field bytes])
     @ (if p_attributes proto = [] then [] else [attributes_field])"

fun FromProto_fields :: "(string \<times> int) list \<Rightarrow> field list \<Rightarrow> dict \<Rightarrow> dict \<times> error option" where
  "FromProto_fields enum [] store = (store, None)"
| "FromProto_fields enum (scalar_field name v # fs) store =
     FromProto_fields enum fs (setitem store name v)"
| "FromProto_fields enum (source_short_field code # fs) store =
     (case map_of (SOURCE_SHORT_FROM_PROTO_MAP enum) code of
        None \<Rightarrow> (store, Some KeyError)
      | Some name \<Rightarrow> FromProto_fields enum fs (setitem store ''source_short'' name))"
| "FromProto_fields enum (pathspec_field bytes # fs) store =
     FromProto_fields enum fs (setitem store ''pathspec'' (PStr bytes))"
| "FromProto_fields enum (attributes_field # fs) store = FromProto_fields enum fs store"

text \<open>\<^verbatim>\<open>d.update(other)\<close>.\<close>

definition dict_update :: "dict \<Rightarrow> dict \<Rightarrow> dict" where
  "dict_update d other = fold (\<lambda>(k, v) m. setitem m k v) other d"

text \<open>
  \<^verbatim>\<open>EventObject.FromProto\<close> (lines 405-436): the event as the call leaves it and the
  exception it raised, if any. The method writes to the event's own store only.
\<close>

definition FromProto ::
  "(string \<times> int) list \<Rightarrow> EventObject \<Rightarrow> message \<Rightarrow> EventObject \<times> error option" where
  "FromProto enum self msg =
     (case msg of
        Other_message \<Rightarrow> (self, Some (RuntimeError ''Unsupported proto''))
      | EventObject_message proto \<Rightarrow>
          (case FromProto_fields enum (ListFields proto) (eo_attributes self) of
             (store, Some e) \<Rightarrow> (self\<lparr>eo_attributes := store\<rparr>, Some e)
           | (store, None) \<Rightarrow>
               (case DictFromProto (p_attributes proto) [] of
                  Inl e \<Rightarrow> (self\<lparr>eo_attributes := store\<rparr>, Some e)
                | Inr decoded \<Rightarrow>
                    (self\<lparr>eo_attributes := dict_update store decoded\<rparr>, None))))"

section \<open>The string forms\<close>



section \<open>Codec: names and example inputs\<close>





text \<open>
  Modelled from the spec: the schema of the \<^verbatim>\<open>EventObject\<close> message and the values of
  its enum \<^verbatim>\<open>SourceShort\<close> are in \<^verbatim>\<open>plaso_storage.proto\<close>, which is missing from the
  sources. The specification names the fields \<^verbatim>\<open>timestamp\<close> (int64),
  \<^verbatim>\<open>timestamp_desc\<close>, \<^verbatim>\<open>source_long\<close> and \<^verbatim>\<open>data_type\<close> (strings), the repeated
  field \<^verbatim>\<open>attributes\<close>, and the enum value \<^verbatim>\<open>LOG\<close> with the number 6. The codec
  takes both as parameters; these are the instances the examples run on.
\<close>

definition example_schema :: "(string \<times> field_type) list" where
  "example_schema =
     [(''timestamp'', Int64), (''timestamp_desc'', String), (''source_long'', String),
      (''data_type'', String), (''attributes'', Unassignable)]"

definition example_enum :: "(string \<times> int) list" where
  "example_enum = [(''LOG'', 6)]"




text \<open>An event whose only attribute is \<^verbatim>\<open>source_short\<close>.\<close>

definition source_short_store :: "string \<Rightarrow> heap" where
  "source_short_store s =
     [Event (EventObject_init\<lparr>eo_attributes := setitem [] ''source_short'' (PStr s)\<rparr>)]"

text \<open>
  A message with the field \<^verbatim>\<open>timestamp\<close> set and one attribute that has a key and no
  value field; and an event that holds a note and a timestamp before it decodes one.
\<close>

definition valueless_attribute_message :: message where
  "valueless_attribute_message =
     EventObject_message
       (EventObject_proto_init
          \<lparr>p_fields := [(''timestamp'', PInt 5)],
           p_attributes := [Attribute (Some ''unknown'') None None None None None None]\<rparr>)"

definition noted_event :: EventObject where
  "noted_event =
     EventObject_init\<lparr>eo_attributes := [(''note'', PStr ''old''), (''timestamp'', PInt 1)]\<rparr>"


section \<open>Append: proofs\<close>

lemmas store_defs = timestamped_def EventContainer_init_def EventObject_init_def Append_def
  getattr_def deref_def internal_Append_def set_parent_def store_item_def update_range_def

text \<open>
  Claim C1. After every successful \<^verbatim>\<open>Append\<close> the cached range of the container
  encloses the timestamp of every event of its subtree. The code does not keep this:
  \<^verbatim>\<open>_Append\<close> tests \<^verbatim>\<open>not self.first_timestamp\<close> for "no range recorded yet",
  which is also true of a recorded bound of 0. A fresh container that receives an event
  at timestamp 0 and then one at timestamp 5 ends with the range 5 to 5, while it holds
  the event at 0.
\<close>

theorem Append_range_loses_zero_timestamp:
  "snd (Append_all 0 zero_store 0 [1, 2]) = None
   \<and> cached_range (fst (Append_all 0 zero_store 0 [1, 2])) 0 = Some (5, 5)
   \<and> subtree_events 1 (fst (Append_all 0 zero_store 0 [1, 2])) 0 = [1, 2]
   \<and> timestamp_key 0 (fst (Append_all 0 zero_store 0 [1, 2])) 1 = Some 0"
  by (simp add: zero_store_def store_defs cached_range_def timestamp_key_def)

text \<open>
  Claim C2. Appending the same timestamps in any order gives the same range, and no
  bound is ever given up. The code does neither when a timestamp is 0: the timestamps
  0, 5 give the range 5 to 5 and the timestamps 5, 0 the range 0 to 5; and after 5, 0
  the range is 0 to 5, after 5, 0, 7 it is 7 to 7, so the lower bound has moved up.
\<close>

theorem Append_range_depends_on_order:
  "cached_range (fst (Append_all 0 zero_store 0 [1, 2])) 0 = Some (5, 5)
   \<and> cached_range (fst (Append_all 0 zero_store 0 [2, 1])) 0 = Some (0, 5)
   \<and> cached_range (fst (Append_all 0 shrink_store 0 [1, 2])) 0 = Some (0, 5)
   \<and> cached_range (fst (Append_all 0 shrink_store 0 [1, 2, 3])) 0 = Some (7, 7)"
  by (simp add: zero_store_def shrink_store_def store_defs cached_range_def)

text \<open>
  Claim C5. \<^verbatim>\<open>Append\<close> of an item that is neither an event nor a container, or of
  an event for which \<^verbatim>\<open>item.timestamp\<close> raises \<^verbatim>\<open>AttributeError\<close> (no store on
  its resolution chain holds a timestamp), raises \<^verbatim>\<open>NotAnEventContainerOrObject\<close>
  and leaves the whole store as it was: the container's two sequences and its cached
  range, and the item's parent back-reference.
\<close>

theorem Append_invalid_unchanged:
  assumes "deref h c = Some (Container ct)"
      and "(\<exists>v. deref h item = Some (Other v))
           \<or> (\<exists>ev. deref h item = Some (Event ev)
                 \<and> getattr d h item ''timestamp'' = Inl AttributeError)"
  shows "Append d h c item = (h, Some NotAnEventContainerOrObject)"
  using assms(2) by (auto simp: Append_def)

lemma append_error_store_eq:
  "append_error_store =
     [Container \<lparr>events = [1], containers = [], parent_container = None,
                 first_timestamp = 7, last_timestamp = 7, attributes = []\<rparr>,
      Event \<lparr>eo_parent_container = Some 0, eo_attributes = [(''timestamp'', PInt 7)]\<rparr>,
      Other (PStr ''not an event''),
      Event \<lparr>eo_parent_container = None, eo_attributes = [(''note'', PStr ''x'')]\<rparr>]"
  by (simp add: append_error_store_def store_defs)

theorem Append_invalid_unchanged_witness:
  "Append 0 append_error_store 0 2 = (append_error_store, Some NotAnEventContainerOrObject)
   \<and> Append 0 append_error_store 0 3 = (append_error_store, Some NotAnEventContainerOrObject)
   \<and> deref append_error_store 2 = Some (Other (PStr ''not an event''))
   \<and> getattr 0 append_error_store 3 ''timestamp'' = Inl AttributeError
   \<and> cached_range append_error_store 0 = Some (7, 7)"
proof -
  have c: "deref append_error_store 0 =
      Some (Container \<lparr>events = [1], containers = [], parent_container = None,
                 first_timestamp = 7, last_timestamp = 7, attributes = []\<rparr>)"
    by (simp add: append_error_store_eq deref_def)
  have o: "deref append_error_store 2 = Some (Other (PStr ''not an event''))"
    by (simp add: append_error_store_eq deref_def)
  have e: "deref append_error_store 3 =
      Some (Event \<lparr>eo_parent_container = None, eo_attributes = [(''note'', PStr ''x'')]\<rparr>)"
    by (simp add: append_error_store_eq deref_def)
  have g: "getattr 0 append_error_store 3 ''timestamp'' = Inl AttributeError"
    by (simp add: append_error_store_eq deref_def getattr_def)
  have r: "cached_range append_error_store 0 = Some (7, 7)"
    by (simp add: cached_range_def c)
  from Append_invalid_unchanged [OF c, of 2 0] o have
    a2: "Append 0 append_error_store 0 2 = (append_error_store, Some NotAnEventContainerOrObject)"
    by blast
  from Append_invalid_unchanged [OF c, of 3 0] e g have
    a3: "Append 0 append_error_store 0 3 = (append_error_store, Some NotAnEventContainerOrObject)"
    by blast
  from a2 a3 o g r show ?thesis by blast
qed

text \<open>\<^verbatim>\<open>Append\<close> writes to the container and to the item, and to no other object.\<close>

lemma deref_internal_Append_other:
  "r \<noteq> self \<Longrightarrow> r \<noteq> item \<Longrightarrow>
     deref (internal_Append h self item st tf tlast) r = deref h r"
  by (auto simp: internal_Append_def set_parent_def deref_def Let_def
      split: option.splits obj.splits)

lemma Append_other:
  assumes "Append d h self item = (h', res)" and "r \<noteq> self" and "r \<noteq> item"
  shows "deref h' r = deref h r"
proof -
  from assms(1) have "h' = h \<or> (\<exists>st tf tlast. h' = internal_Append h self item st tf tlast)"
    by (auto simp: Append_def split: option.splits obj.splits sum.splits pyval.splits
        error.splits)
  then show ?thesis using assms(2,3) by (auto simp: deref_internal_Append_other)
qed

text \<open>
  Claim C10. When a container \<open>c\<close> has been appended to a parent \<open>p\<close> (another
  object), a later successful \<^verbatim>\<open>Append\<close> of an event to \<open>c\<close> leaves the parent as it
  was, its cached range, its two sequences and all else; the only objects written are
  \<open>c\<close> and the event.
\<close>

theorem Append_to_child_leaves_parent:
  assumes "deref h p = Some (Container P)" and "c \<in> set (containers P)" and "p \<noteq> c"
      and "deref h e = Some (Event E)" and "Append d h c e = (h', None)"
  shows "deref h' p = Some (Container P)
         \<and> (\<forall>r. r \<noteq> c \<longrightarrow> r \<noteq> e \<longrightarrow> deref h' r = deref h r)"
proof -
  from assms(1,4) have "p \<noteq> e" by auto
  with Append_other [OF assms(5)] assms(1,3) show ?thesis by auto
qed

lemma parent_child_store_eq:
  "parent_child_store =
     [Container \<lparr>events = [], containers = [1], parent_container = None,
                 first_timestamp = 4, last_timestamp = 4, attributes = []\<rparr>,
      Container \<lparr>events = [2], containers = [], parent_container = Some 0,
                 first_timestamp = 4, last_timestamp = 4, attributes = []\<rparr>,
      Event \<lparr>eo_parent_container = Some 1, eo_attributes = [(''timestamp'', PInt 4)]\<rparr>,
      Event \<lparr>eo_parent_container = None, eo_attributes = [(''timestamp'', PInt 9)]\<rparr>]"
  by (simp add: parent_child_store_def store_defs)

text \<open>
  The child's range grows from 4-4 to 4-9 when it receives the event at timestamp 9;
  the parent keeps the range 4-4 it took when it received the child.
\<close>

theorem Append_to_child_leaves_parent_witness:
  "snd (Append 0 parent_child_store 1 3) = None
   \<and> cached_range parent_child_store 1 = Some (4, 4)
   \<and> cached_range (fst (Append 0 parent_child_store 1 3)) 1 = Some (4, 9)
   \<and> deref parent_child_store 0 =
       Some (Container \<lparr>events = [], containers = [1], parent_container = None,
                 first_timestamp = 4, last_timestamp = 4, attributes = []\<rparr>)
   \<and> deref (fst (Append 0 parent_child_store 1 3)) 0 =
       Some (Container \<lparr>events = [], containers = [1], parent_container = None,
                 first_timestamp = 4, last_timestamp = 4, attributes = []\<rparr>)
   \<and> deref (fst (Append 0 parent_child_store 1 3)) 2 = deref parent_child_store 2"
proof -
  let ?P = "\<lparr>events = [], containers = [1], parent_container = None,
                 first_timestamp = 4, last_timestamp = 4, attributes = []\<rparr>"
  have p: "deref parent_child_store 0 = Some (Container ?P)"
    by (simp add: parent_child_store_eq deref_def)
  have c: "1 \<in> set (containers ?P)" by simp
  have ne: "(0::nat) \<noteq> 1" by simp
  have e: "deref parent_child_store 3 =
      Some (Event \<lparr>eo_parent_container = None, eo_attributes = [(''timestamp'', PInt 9)]\<rparr>)"
    by (simp add: parent_child_store_eq deref_def)
  have ok: "snd (Append 0 parent_child_store 1 3) = None"
    by (simp add: parent_child_store_eq store_defs)
  then have a: "Append 0 parent_child_store 1 3 = (fst (Append 0 parent_child_store 1 3), None)"
    by (metis prod.collapse)
  have r0: "cached_range parent_child_store 1 = Some (4, 4)"
    by (simp add: parent_child_store_eq cached_range_def deref_def)
  have r1: "cached_range (fst (Append 0 parent_child_store 1 3)) 1 = Some (4, 9)"
    by (simp add: parent_child_store_eq store_defs cached_range_def)
  from Append_to_child_leaves_parent [OF p c ne e a] have
    "deref (fst (Append 0 parent_child_store 1 3)) 0 = Some (Container ?P)"
    "deref (fst (Append 0 parent_child_store 1 3)) 2 = deref parent_child_store 2"
    by simp_all
  with ok r0 r1 p show ?thesis by simp
qed

section \<open>Attribute resolution: proofs\<close>

text \<open>
  Claim C6. \<^verbatim>\<open>GetValue\<close> returns the node's own value if it has one and otherwise
  what the parent's \<^verbatim>\<open>GetValue\<close> returns, so that a value set on the root is seen
  from every descendant. The code tests \<^verbatim>\<open>if self.parent_container:\<close>, the parent's
  truth value, and a container that counts no event is false: a container whose parent
  holds \<^verbatim>\<open>hostname\<close> raises \<^verbatim>\<open>AttributeError\<close> as long as no event has been
  appended below the parent, at every recursion depth that lets the lengths be counted.
\<close>

theorem GetValue_skips_empty_parent:
  "map_option (\<lambda>ob. case ob of Container ct \<Rightarrow> parent_container ct | _ \<Rightarrow> None)
      (deref hostname_store 1) = Some (Some 0)
   \<and> GetValue (Suc d) hostname_store 0 ''hostname'' = Inr (PStr ''host-a'')
   \<and> GetValue (Suc (Suc (Suc d))) hostname_store 1 ''hostname'' = Inl AttributeError
   \<and> GetValue (Suc d) hostname_chain_store 0 ''hostname'' = Inr (PStr ''host-a'')
   \<and> GetValue (Suc (Suc (Suc (Suc d)))) hostname_chain_store 1 ''hostname''
       = Inl AttributeError
   \<and> GetValue (Suc (Suc (Suc (Suc d)))) hostname_chain_store 2 ''hostname''
       = Inl AttributeError"
  by (simp add: hostname_store_def hostname_chain_store_def store_defs nonzero_def)

section \<open>Ordered iteration: proofs\<close>

lemma heappop_Min:
  "q \<noteq> [] \<Longrightarrow> heappop q = Inr (Min (set q), remove1 (Min (set q)) q)"
proof (cases q)
  case Nil
  assume "q \<noteq> []"
  with Nil show ?thesis by simp
next
  case (Cons x xs)
  have "fold min xs x = Min (set (x # xs))" by (simp only: Min.set_eq_fold)
  then show ?thesis using Cons by (simp only: heappop_def list.case Let_def)
qed

text \<open>Draining a queue yields its items in ascending order.\<close>

lemma drain_sorted:
  "length q = n \<Longrightarrow> \<exists>xs. drain n q = Inr (map snd xs) \<and> mset xs = mset q \<and> sorted xs"
proof (induction n arbitrary: q)
  case 0
  then show ?case by simp
next
  case (Suc n)
  then have ne: "q \<noteq> []" by auto
  let ?m = "Min (set q)"
  have m_in: "?m \<in> set q" using ne by (simp add: Min_in)
  have m_le: "\<forall>x\<in>set q. ?m \<le> x" by simp
  have "length (remove1 ?m q) = n" using Suc.prems m_in by (simp add: length_remove1)
  from Suc.IH [OF this] obtain xs where
    xs: "drain n (remove1 ?m q) = Inr (map snd xs)" "mset xs = mset (remove1 ?m q)" "sorted xs"
    by blast
  have set_xs: "set xs \<subseteq> set q"
    using xs(2) by (metis mset_eq_setD set_remove1_subset)
  have "drain (Suc n) q = Inr (map snd (?m # xs))"
    using xs(1) by (simp add: heappop_Min [OF ne])
  moreover have "mset (?m # xs) = mset q"
    using xs(2) m_in by simp
  moreover have "sorted (?m # xs)"
    using xs(3) set_xs m_le by auto
  ultimately show ?case by blast
qed

lemma push_events_mset:
  "push_events (\<lambda>e. getattr d h e ''timestamp'') es q = Inr q' \<Longrightarrow>
     (\<forall>e\<in>set es. timestamp_key d h e \<noteq> None) \<and> mset q' = mset q + mset (map (keyed d h) es)"
proof (induction es arbitrary: q)
  case Nil
  then show ?case by simp
next
  case (Cons e es)
  from Cons.prems obtain t where
    t: "getattr d h e ''timestamp'' = Inr (PInt t)" and
    rest: "push_events (\<lambda>e. getattr d h e ''timestamp'') es (heappush q (t, e)) = Inr q'"
    by (auto split: sum.splits pyval.splits)
  have k: "timestamp_key d h e = Some t" using t by (simp add: timestamp_key_def)
  from Cons.IH [OF rest] k show ?case
    by (simp add: keyed_def heappush_def)
qed

lemma push_events_total:
  "\<forall>e\<in>set es. timestamp_key d h e \<noteq> None \<Longrightarrow>
     \<exists>q'. push_events (\<lambda>e. getattr d h e ''timestamp'') es q = Inr q'"
proof (induction es arbitrary: q)
  case Nil
  then show ?case by simp
next
  case (Cons e es)
  then obtain t where "timestamp_key d h e = Some t" by auto
  then have t: "getattr d h e ''timestamp'' = Inr (PInt t)"
    by (auto simp: timestamp_key_def split: sum.splits pyval.splits)
  from Cons.IH [of "heappush q (t, e)"] Cons.prems obtain q' where
    "push_events (\<lambda>e. getattr d h e ''timestamp'') es (heappush q (t, e)) = Inr q'" by auto
  then show ?case using t by simp
qed

lemma push_containers_mset:
  "push_containers it (\<lambda>e. getattr d h e ''timestamp'') cs q = Inr q' \<Longrightarrow>
     \<exists>ess. map it cs = map Inr ess \<and> (\<forall>e\<in>set (concat ess). timestamp_key d h e \<noteq> None)
       \<and> mset q' = mset q + mset (map (keyed d h) (concat ess))"
proof (induction cs arbitrary: q)
  case Nil
  then show ?case by simp
next
  case (Cons c cs)
  from Cons.prems obtain evs q1 where
    c: "it c = Inr evs" and
    q1: "push_events (\<lambda>e. getattr d h e ''timestamp'') evs q = Inr q1" and
    rest: "push_containers it (\<lambda>e. getattr d h e ''timestamp'') cs q1 = Inr q'"
    by (auto split: sum.splits)
  from Cons.IH [OF rest] obtain ess where
    ess: "map it cs = map Inr ess" "\<forall>e\<in>set (concat ess). timestamp_key d h e \<noteq> None"
      "mset q' = mset q1 + mset (map (keyed d h) (concat ess))"
    by blast
  from push_events_mset [OF q1] have
    e1: "\<forall>e\<in>set evs. timestamp_key d h e \<noteq> None" "mset q1 = mset q + mset (map (keyed d h) evs)"
    by auto
  have "map it (c # cs) = map Inr (evs # ess)" using c ess(1) by simp
  moreover have "\<forall>e\<in>set (concat (evs # ess)). timestamp_key d h e \<noteq> None"
    using e1(1) ess(2) by auto
  moreover have "mset q' = mset q + mset (map (keyed d h) (concat (evs # ess)))"
    using e1(2) ess(3) by simp
  ultimately show ?case by blast
qed

lemma push_containers_total:
  "map it cs = map Inr ess \<Longrightarrow> \<forall>e\<in>set (concat ess). timestamp_key d h e \<noteq> None \<Longrightarrow>
     \<exists>q'. push_containers it (\<lambda>e. getattr d h e ''timestamp'') cs q = Inr q'"
proof (induction cs arbitrary: q ess)
  case Nil
  then show ?case by simp
next
  case (Cons c cs)
  from Cons.prems(1) obtain evs ess' where
    ess: "ess = evs # ess'" "it c = Inr evs" "map it cs = map Inr ess'"
    by (cases ess) auto
  from Cons.prems(2) ess(1) have k: "\<forall>e\<in>set evs. timestamp_key d h e \<noteq> None"
    "\<forall>e\<in>set (concat ess'). timestamp_key d h e \<noteq> None" by auto
  from push_events_total [OF k(1)] obtain q1 where
    q1: "push_events (\<lambda>e. getattr d h e ''timestamp'') evs q = Inr q1" by blast
  from Cons.IH [OF ess(3) k(2)] obtain q' where
    "push_containers it (\<lambda>e. getattr d h e ''timestamp'') cs q1 = Inr q'" by blast
  then show ?case using ess(2) q1 by simp
qed

lemma sum_lens_lengths:
  "map f cs = map Inr ns \<Longrightarrow> sum_lens f k cs = Inr (k + sum_list ns)"
proof (induction cs arbitrary: k ns)
  case Nil
  then show ?case by simp
next
  case (Cons c cs)
  then show ?case by (cases ns) auto
qed

lemma sum_lens_Inr:
  "sum_lens f k cs = Inr n \<Longrightarrow> \<exists>ns. map f cs = map Inr ns"
proof (induction cs arbitrary: k)
  case Nil
  then show ?case by simp
next
  case (Cons c cs)
  from Cons.prems obtain m where m: "f c = Inr m" "sum_lens f (k + m) cs = Inr n"
    by (auto split: sum.splits)
  from Cons.IH [OF m(2)] obtain ns where "map f cs = map Inr ns" by blast
  then have "map f (c # cs) = map Inr (m # ns)" using m(1) by simp
  then show ?case by blast
qed

text \<open>What an iteration that returns has yielded: the events of the subtree, as many as
  \<^verbatim>\<open>__len__\<close> counts.\<close>

lemma iter_subtree_len:
  "iter d h c = Inr xs \<Longrightarrow>
     mset xs = mset (subtree_events d h c) \<and> len d h c = Inr (length xs)"
proof (induction d arbitrary: c xs)
  case 0
  then show ?case by simp
next
  case (Suc d)
  from Suc.prems obtain ct q q' where
    ct: "deref h c = Some (Container ct)" and
    q: "push_events (\<lambda>e. getattr d h e ''timestamp'') (events ct) [] = Inr q" and
    q': "push_containers (iter d h) (\<lambda>e. getattr d h e ''timestamp'') (containers ct) q = Inr q'" and
    xs: "drain (length q') q' = Inr xs"
    by (auto split: option.splits obj.splits sum.splits)
  from push_events_mset [OF q] have mq: "mset q = mset (map (keyed d h) (events ct))" by simp
  from push_containers_mset [OF q'] obtain ess where
    ess: "map (iter d h) (containers ct) = map Inr ess"
      "mset q' = mset q + mset (map (keyed d h) (concat ess))"
    by blast
  from drain_sorted [OF refl, of q'] xs obtain ys where
    ys: "xs = map snd ys" "mset ys = mset q'" by auto
  have "mset xs = image_mset snd (mset q')" using ys by (metis mset_map)
  also have "\<dots> = mset (events ct) + mset (concat ess)"
    using mq ess(2) by (simp add: keyed_def image_mset.compositionality comp_def)
  finally have m: "mset xs = mset (events ct) + mset (concat ess)" .
  have each: "\<forall>i<length ess. mset (ess ! i) = mset (subtree_events d h (containers ct ! i))
      \<and> len d h (containers ct ! i) = Inr (length (ess ! i))"
  proof (intro allI impI)
    fix i assume i: "i < length ess"
    have "length ess = length (containers ct)" using ess(1) by (metis length_map)
    with i ess(1) have "iter d h (containers ct ! i) = Inr (ess ! i)"
      by (metis nth_map)
    from Suc.IH [OF this]
    show "mset (ess ! i) = mset (subtree_events d h (containers ct ! i))
      \<and> len d h (containers ct ! i) = Inr (length (ess ! i))" .
  qed
  have len_eq: "length ess = length (containers ct)" using ess(1) by (metis length_map)
  have "map mset ess = map (\<lambda>c. mset (subtree_events d h c)) (containers ct)"
    using each len_eq by (auto intro!: nth_equalityI)
  then have "mset (concat ess) = mset (concat (map (subtree_events d h) (containers ct)))"
    by (simp add: mset_concat comp_def)
  with m ct have A: "mset xs = mset (subtree_events (Suc d) h c)" by simp
  have "map (len d h) (containers ct) = map Inr (map length ess)"
    using each len_eq by (auto intro!: nth_equalityI)
  from sum_lens_lengths [OF this]
  have "len (Suc d) h c = Inr (length (events ct) + sum_list (map length ess))"
    using ct by simp
  moreover have "length xs = length (events ct) + sum_list (map length ess)"
    using m by (metis length_append length_concat size_mset mset_append)
  ultimately show ?case using A by simp
qed

lemma iter_sorted:
  assumes "iter (Suc d) h c = Inr xs"
  shows "\<exists>ts. map (timestamp_key d h) xs = map Some ts \<and> sorted ts"
proof -
  from assms obtain ct q q' where
    ct: "deref h c = Some (Container ct)" and
    q: "push_events (\<lambda>e. getattr d h e ''timestamp'') (events ct) [] = Inr q" and
    q': "push_containers (iter d h) (\<lambda>e. getattr d h e ''timestamp'') (containers ct) q = Inr q'" and
    xs: "drain (length q') q' = Inr xs"
    by (auto split: option.splits obj.splits sum.splits)
  from push_events_mset [OF q] have mq: "mset q = mset (map (keyed d h) (events ct))"
    and k1: "\<forall>e\<in>set (events ct). timestamp_key d h e \<noteq> None" by simp_all
  from push_containers_mset [OF q'] obtain ess where
    ess: "\<forall>e\<in>set (concat ess). timestamp_key d h e \<noteq> None"
      "mset q' = mset q + mset (map (keyed d h) (concat ess))"
    by blast
  from drain_sorted [OF refl, of q'] xs obtain ys where
    ys: "xs = map snd ys" "mset ys = mset q'" "sorted ys" by auto
  have "set ys = set q'" using ys(2) by (rule mset_eq_setD)
  also have "\<dots> = keyed d h ` (set (events ct) \<union> set (concat ess))"
    using mq ess(2) by (metis (no_types, lifting) image_Un mset_append mset_map set_append set_map set_mset_mset union_code)
  finally have "\<forall>y\<in>set ys. timestamp_key d h (snd y) = Some (fst y)"
    using k1 ess(1) by (auto simp: keyed_def)
  then have "map (timestamp_key d h) xs = map Some (map fst ys)"
    using ys(1) by simp
  moreover have "sorted (map fst ys)"
    using ys(3) by (induction ys) (auto simp: less_eq_prod_def)
  ultimately show ?thesis by blast
qed

text \<open>The iteration returns wherever \<^verbatim>\<open>__len__\<close> does and every timestamp can be read.\<close>

lemma iter_total:
  "len d h c = Inr n \<Longrightarrow>
   \<forall>e\<in>set (subtree_events d h c). \<forall>k<d. timestamp_key k h e \<noteq> None \<Longrightarrow>
   \<exists>xs. iter d h c = Inr xs"
proof (induction d arbitrary: c n)
  case 0
  then show ?case by simp
next
  case (Suc d)
  from Suc.prems(1) obtain ct where
    ct: "deref h c = Some (Container ct)" and
    sl: "sum_lens (len d h) (length (events ct)) (containers ct) = Inr n"
    by (auto split: option.splits obj.splits)
  have sub: "subtree_events (Suc d) h c =
      events ct @ concat (map (subtree_events d h) (containers ct))"
    using ct by simp
  from sum_lens_Inr [OF sl] obtain ns where ns: "map (len d h) (containers ct) = map Inr ns"
    by blast
  have kids: "\<forall>c'\<in>set (containers ct). \<exists>ys. iter d h c' = Inr ys"
  proof
    fix c' assume c': "c' \<in> set (containers ct)"
    then obtain i where i: "i < length (containers ct)" "containers ct ! i = c'"
      by (auto simp: in_set_conv_nth)
    have "length ns = length (containers ct)" using ns by (metis length_map)
    with i ns have l: "len d h c' = Inr (ns ! i)" by (metis nth_map)
    have "set (subtree_events d h c') \<subseteq> set (subtree_events (Suc d) h c)"
      using c' sub by auto
    with Suc.prems(2) have "\<forall>e\<in>set (subtree_events d h c'). \<forall>k<d. timestamp_key k h e \<noteq> None"
      by (meson less_SucI subsetD)
    from Suc.IH [OF l this] show "\<exists>ys. iter d h c' = Inr ys" .
  qed
  then obtain f where f: "\<forall>c'\<in>set (containers ct). iter d h c' = Inr (f c')"
    by metis
  define ess where "ess = map f (containers ct)"
  have ess: "map (iter d h) (containers ct) = map Inr ess"
    using f by (simp add: ess_def)
  have "\<forall>c'\<in>set (containers ct). set (f c') = set (subtree_events d h c')"
    using f iter_subtree_len by (metis mset_eq_setD)
  then have "set (concat ess) \<subseteq> set (subtree_events (Suc d) h c)"
    using sub by (auto simp: ess_def)
  with Suc.prems(2) have k2: "\<forall>e\<in>set (concat ess). timestamp_key d h e \<noteq> None"
    by (meson lessI subsetD)
  have "set (events ct) \<subseteq> set (subtree_events (Suc d) h c)"
    unfolding sub by simp
  with Suc.prems(2) have k1: "\<forall>e\<in>set (events ct). timestamp_key d h e \<noteq> None"
    by (meson lessI subsetD)
  from push_events_total [OF k1] obtain q where
    q: "push_events (\<lambda>e. getattr d h e ''timestamp'') (events ct) [] = Inr q" by blast
  from push_containers_total [OF ess k2] obtain q' where
    q': "push_containers (iter d h) (\<lambda>e. getattr d h e ''timestamp'') (containers ct) q = Inr q'"
    by blast
  from drain_sorted [OF refl, of q'] obtain xs where "drain (length q') q' = Inr xs" by blast
  then show ?case using ct q q' by simp
qed

lemma example_appended_eq:
  "example_appended =
     [Container \<lparr>events = [2, 3, 4], containers = [1], parent_container = None,
                 first_timestamp = 1, last_timestamp = 5, attributes = []\<rparr>,
      Container \<lparr>events = [5, 6], containers = [], parent_container = Some 0,
                 first_timestamp = 2, last_timestamp = 4, attributes = []\<rparr>,
      Event \<lparr>eo_parent_container = Some 0, eo_attributes = [(''timestamp'', PInt 5)]\<rparr>,
      Event \<lparr>eo_parent_container = Some 0, eo_attributes = [(''timestamp'', PInt 1)]\<rparr>,
      Event \<lparr>eo_parent_container = Some 0, eo_attributes = [(''timestamp'', PInt 3)]\<rparr>,
      Event \<lparr>eo_parent_container = Some 1, eo_attributes = [(''timestamp'', PInt 2)]\<rparr>,
      Event \<lparr>eo_parent_container = Some 1, eo_attributes = [(''timestamp'', PInt 4)]\<rparr>]"
  by (simp add: example_appended_def example_store_def timestamped_def EventContainer_init_def
      EventObject_init_def Append_def getattr_def deref_def internal_Append_def set_parent_def
      store_item_def update_range_def)

text \<open>
  Claim C3. Iterating a container yields exactly the events of its whole subtree (the
  direct events and those of every descendant container, as a multiset: each as often as
  it was appended), in non-decreasing order of the timestamps the iteration reads, and as
  many as \<^verbatim>\<open>__len__\<close> counts. The iteration is shown to return: it does wherever
  \<^verbatim>\<open>__len__\<close> returns within the same recursion depth and \<^verbatim>\<open>event.timestamp\<close> is
  an integer for every event of the subtree.
\<close>

theorem iter_yields_subtree_sorted:
  assumes "len (Suc d) h c = Inr n"
      and "\<forall>e\<in>set (subtree_events (Suc d) h c). \<forall>k\<le>d. timestamp_key k h e \<noteq> None"
  shows "\<exists>xs ts. iter (Suc d) h c = Inr xs \<and> mset xs = mset (subtree_events (Suc d) h c)
           \<and> length xs = n \<and> map (timestamp_key d h) xs = map Some ts \<and> sorted ts"
proof -
  from assms(2) have
    "\<forall>e\<in>set (subtree_events (Suc d) h c). \<forall>k<Suc d. timestamp_key k h e \<noteq> None"
    by (simp add: less_Suc_eq_le)
  from iter_total [OF assms(1) this] obtain xs where xs: "iter (Suc d) h c = Inr xs" by blast
  from iter_subtree_len [OF xs] assms(1) have
    "mset xs = mset (subtree_events (Suc d) h c)" "length xs = n" by simp_all
  moreover from iter_sorted [OF xs] obtain ts where
    "map (timestamp_key d h) xs = map Some ts" "sorted ts" by blast
  ultimately show ?thesis using xs by blast
qed

text \<open>
  The specification's example: the events with the timestamps 5, 1, 3 appended directly
  and those with 2, 4 through a child container are yielded in the order 1, 2, 3, 4, 5
  (the events at the addresses 3, 5, 4, 6, 2); the length is 5 and the cached range is
  1 to 5.
\<close>

theorem iter_yields_subtree_sorted_witness:
  "len (Suc 1) example_appended 0 = Inr 5
   \<and> subtree_events (Suc 1) example_appended 0 = [2, 3, 4, 5, 6]
   \<and> map (timestamp_key 0 example_appended) [2, 3, 4, 5, 6] = map Some [5, 1, 3, 2, 4]
   \<and> iter (Suc 1) example_appended 0 = Inr [3, 5, 4, 6, 2]
   \<and> map (timestamp_key 1 example_appended) [3, 5, 4, 6, 2] = map Some [1, 2, 3, 4, 5]
   \<and> map_option (\<lambda>ob. case ob of Container ct \<Rightarrow> (first_timestamp ct, last_timestamp ct)
                        | _ \<Rightarrow> (0, 0)) (deref example_appended 0) = Some (1, 5)
   \<and> (\<exists>xs ts. iter (Suc 1) example_appended 0 = Inr xs
         \<and> mset xs = mset (subtree_events (Suc 1) example_appended 0)
         \<and> length xs = 5 \<and> map (timestamp_key 1 example_appended) xs = map Some ts
         \<and> sorted ts)"
proof -
  have h1: "len (Suc 1) example_appended 0 = Inr 5"
    by (simp add: example_appended_eq deref_def)
  have h2: "\<forall>e\<in>set (subtree_events (Suc 1) example_appended 0).
        \<forall>k\<le>1. timestamp_key k example_appended e \<noteq> None"
    by (simp add: example_appended_eq deref_def timestamp_key_def getattr_def)
  have h3: "iter (Suc 1) example_appended 0 = Inr [3, 5, 4, 6, 2]"
    by (simp add: example_appended_eq deref_def getattr_def heappush_def heappop_def)
  have h4: "map (timestamp_key 1 example_appended) [3, 5, 4, 6, 2] = map Some [1, 2, 3, 4, 5]"
    by (simp add: example_appended_eq deref_def timestamp_key_def getattr_def)
  have h5: "map_option (\<lambda>ob. case ob of Container ct \<Rightarrow> (first_timestamp ct, last_timestamp ct)
                        | _ \<Rightarrow> (0, 0)) (deref example_appended 0) = Some (1, 5)"
    by (simp add: example_appended_eq deref_def)
  have h6: "subtree_events (Suc 1) example_appended 0 = [2, 3, 4, 5, 6]"
    by (simp add: example_appended_eq deref_def)
  have h7: "map (timestamp_key 0 example_appended) [2, 3, 4, 5, 6] = map Some [5, 1, 3, 2, 4]"
    by (simp add: example_appended_eq deref_def timestamp_key_def getattr_def)
  from iter_yields_subtree_sorted [OF h1 h2] h1 h3 h4 h5 h6 h7 show ?thesis by blast
qed

section \<open>Codec: proofs\<close>

lemma map_of_setitem: "map_of (setitem m k v) = (map_of m)(k \<mapsto> v)"
  by (induction m k v rule: setitem.induct) (auto simp: fun_eq_iff)














lemma map_of_fold_setitem_None:
  "map_of (fold (\<lambda>(name, number) m. setitem m name (f number)) enum m0) k = None
     \<longleftrightarrow> k \<notin> fst ` set enum \<and> map_of m0 k = None"
proof (induction enum arbitrary: m0)
  case Nil
  then show ?case by simp
next
  case (Cons x enum)
  obtain name number where x: "x = (name, number)" by (cases x)
  show ?case using Cons.IH [of "setitem m0 name (f number)"]
    by (auto simp: x map_of_setitem)
qed

lemma TO_PROTO_MAP_unknown:
  assumes "s \<notin> fst ` set enum" and "s \<noteq> ''LOG''"
  shows "map_of (SOURCE_SHORT_TO_PROTO_MAP enum) s = None"
proof -
  let ?m = "fold (\<lambda>(name, number) m. setitem m name (PInt number)) enum []"
  have m: "map_of ?m s = None"
    using assms(1) map_of_fold_setitem_None [of PInt enum "[]" s] by simp
  show ?thesis
    using m assms(2)
    by (simp add: SOURCE_SHORT_TO_PROTO_MAP_def setdefault_def map_of_setitem split: option.splits)
qed

text \<open>
  Claim C7. A \<^verbatim>\<open>source_short\<close> that the enum table does not hold is encoded as the
  default code 6, and so is an absent one. The code does not do this:
  \<^verbatim>\<open>_SOURCE_SHORT_TO_PROTO_MAP.setdefault('LOG')\<close> gives the table no default, the
  lookup \<^verbatim>\<open>_SOURCE_SHORT_TO_PROTO_MAP[self.source_short]\<close> of line 507 raises
  \<^verbatim>\<open>KeyError\<close> for every name that is not a value of the enum, and \<^verbatim>\<open>ToProto\<close>
  fails. An event without \<^verbatim>\<open>source_short\<close> is encoded without the field, and the
  decoded event has no \<^verbatim>\<open>source_short\<close>.
\<close>

theorem ToProto_unknown_source_short:
  assumes "s \<notin> fst ` set enum" and "s \<noteq> ''LOG''"
  shows "ToProto gus schema enum d (source_short_store s) 0 = Inl KeyError
         \<and> ToProto gus schema enum d [Event EventObject_init] 0 = Inr EventObject_proto_init
         \<and> FromProto enum EventObject_init (EventObject_message EventObject_proto_init)
             = (EventObject_init, None)"
proof -
  have "ToProto gus schema enum d (source_short_store s) 0 = Inl KeyError"
    using TO_PROTO_MAP_unknown [OF assms]
    by (simp add: ToProto_def EventObject_GetAttributes_def source_short_store_def deref_def
        EventObject_init_def ToProto_attribute_def getattr_def)
  moreover have
    "ToProto gus schema enum d [Event EventObject_init] 0 = Inr EventObject_proto_init"
    by (simp add: ToProto_def EventObject_GetAttributes_def deref_def EventObject_init_def)
  moreover have
    "FromProto enum EventObject_init (EventObject_message EventObject_proto_init)
       = (EventObject_init, None)"
    by (simp add: FromProto_def ListFields_def EventObject_proto_init_def EventObject_init_def
        dict_update_def)
  ultimately show ?thesis by blast
qed

theorem ToProto_unknown_source_short_witness:
  "''FOO'' \<notin> fst ` set example_enum
   \<and> ToProto (\<lambda>s. s) example_schema example_enum 0 (source_short_store ''FOO'') 0
       = Inl KeyError"
proof -
  have a: "''FOO'' \<notin> fst ` set example_enum" by (simp add: example_enum_def)
  have b: "''FOO'' \<noteq> ''LOG''" by simp
  from ToProto_unknown_source_short [OF a b, of "\<lambda>s. s" example_schema 0, THEN conjunct1] a
  show ?thesis by (rule conjI [rotated])
qed

text \<open>
  The loop over the listed fields writes to the names of the fields the message lists,
  and to no other name; where it ends without an exception, a scalar field that is listed
  once is in the store with the value of the message.
\<close>

lemma FromProto_fields_frame:
  "FromProto_fields enum fs store = (store', r) \<Longrightarrow>
   \<forall>v. scalar_field name v \<notin> set fs \<Longrightarrow>
   name = ''source_short'' \<longrightarrow> (\<forall>code. source_short_field code \<notin> set fs) \<Longrightarrow>
   name = ''pathspec'' \<longrightarrow> (\<forall>bytes. pathspec_field bytes \<notin> set fs) \<Longrightarrow>
   map_of store' name = map_of store name"
proof (induction enum fs store rule: FromProto_fields.induct)
  case (1 enum store)
  then show ?case by simp
next
  case (2 enum n v fs store)
  then have "n \<noteq> name" by auto
  with 2 show ?case by (simp add: map_of_setitem)
next
  case (3 enum code fs store)
  then have "name \<noteq> ''source_short''" by auto
  with 3 show ?case by (auto simp: map_of_setitem split: option.splits)
next
  case (4 enum bytes fs store)
  then have "name \<noteq> ''pathspec''" by auto
  with 4 show ?case by (simp add: map_of_setitem)
next
  case (5 enum fs store)
  then show ?case by simp
qed

lemma FromProto_fields_written:
  "FromProto_fields enum fs store = (store', None) \<Longrightarrow>
   scalar_field name v \<in> set fs \<Longrightarrow> \<forall>v'. scalar_field name v' \<in> set fs \<longrightarrow> v' = v \<Longrightarrow>
   name = ''source_short'' \<longrightarrow> (\<forall>code. source_short_field code \<notin> set fs) \<Longrightarrow>
   name = ''pathspec'' \<longrightarrow> (\<forall>bytes. pathspec_field bytes \<notin> set fs) \<Longrightarrow>
   map_of store' name = Some v"
proof (induction enum fs store rule: FromProto_fields.induct)
  case (1 enum store)
  from "1.prems"(2) show ?case by simp
next
  case (2 enum n w fs store)
  from "2.prems"(1)
  have a: "FromProto_fields enum fs (setitem store n w) = (store', None)" by simp
  from "2.prems"(3)
  have b: "\<forall>v'. scalar_field name v' \<in> set fs \<longrightarrow> v' = v" by simp
  from "2.prems"(4)
  have c: "name = ''source_short'' \<longrightarrow> (\<forall>code. source_short_field code \<notin> set fs)"
    by simp
  from "2.prems"(5)
  have d: "name = ''pathspec'' \<longrightarrow> (\<forall>bytes. pathspec_field bytes \<notin> set fs)" by simp
  show ?case
  proof (cases "scalar_field name v \<in> set fs")
    case True
    from "2.IH" [OF a True b c d] show ?thesis .
  next
    case False
    with "2.prems"(2) have nw: "n = name \<and> w = v" by simp
    from False b have none: "\<forall>v'. scalar_field name v' \<notin> set fs" by blast
    from FromProto_fields_frame [OF a none c d] nw show ?thesis
      by (simp add: map_of_setitem)
  qed
next
  case (3 enum code fs store)
  from "3.prems"(2) have m: "scalar_field name v \<in> set fs" by simp
  from "3.prems"(3)
  have b: "\<forall>v'. scalar_field name v' \<in> set fs \<longrightarrow> v' = v" by simp
  from "3.prems"(4)
  have c: "name = ''source_short'' \<longrightarrow> (\<forall>code. source_short_field code \<notin> set fs)"
    by simp
  from "3.prems"(5)
  have d: "name = ''pathspec'' \<longrightarrow> (\<forall>bytes. pathspec_field bytes \<notin> set fs)" by simp
  show ?case
  proof (cases "map_of (SOURCE_SHORT_FROM_PROTO_MAP enum) code")
    case None
    with "3.prems"(1) show ?thesis by simp
  next
    case (Some x)
    with "3.prems"(1)
    have a: "FromProto_fields enum fs (setitem store ''source_short'' x) = (store', None)"
      by simp
    from "3.IH" [OF Some a m b c d] show ?thesis .
  qed
next
  case (4 enum bytes fs store)
  from "4.prems"(1)
  have a: "FromProto_fields enum fs (setitem store ''pathspec'' (PStr bytes)) = (store', None)"
    by simp
  from "4.prems"(2) have m: "scalar_field name v \<in> set fs" by simp
  from "4.prems"(3)
  have b: "\<forall>v'. scalar_field name v' \<in> set fs \<longrightarrow> v' = v" by simp
  from "4.prems"(4)
  have c: "name = ''source_short'' \<longrightarrow> (\<forall>code. source_short_field code \<notin> set fs)"
    by simp
  from "4.prems"(5)
  have d: "name = ''pathspec'' \<longrightarrow> (\<forall>bytes. pathspec_field bytes \<notin> set fs)" by simp
  from "4.IH" [OF a m b c d] show ?case .
next
  case (5 enum fs store)
  from "5.prems"(1)
  have a: "FromProto_fields enum fs store = (store', None)" by simp
  from "5.prems"(2) have m: "scalar_field name v \<in> set fs" by simp
  from "5.prems"(3)
  have b: "\<forall>v'. scalar_field name v' \<in> set fs \<longrightarrow> v' = v" by simp
  from "5.prems"(4)
  have c: "name = ''source_short'' \<longrightarrow> (\<forall>code. source_short_field code \<notin> set fs)"
    by simp
  from "5.prems"(5)
  have d: "name = ''pathspec'' \<longrightarrow> (\<forall>bytes. pathspec_field bytes \<notin> set fs)" by simp
  from "5.IH" [OF a m b c d] show ?case .
qed

lemma FromProto_fields_error:
  "FromProto_fields enum fs st = (st', r) \<Longrightarrow> r = None \<or> r = Some KeyError"
  by (induction enum fs st rule: FromProto_fields.induct) (auto split: option.splits)

lemma ListFields_scalar:
  "scalar_field name v \<in> set (ListFields proto) \<longleftrightarrow> (name, v) \<in> set (p_fields proto)"
  by (auto simp: ListFields_def split: option.splits)

lemma ListFields_source_short:
  "source_short_field code \<in> set (ListFields proto) \<longleftrightarrow> p_source_short proto = Some code"
  by (auto simp: ListFields_def split: option.splits)

lemma ListFields_pathspec:
  "pathspec_field bytes \<in> set (ListFields proto) \<longleftrightarrow> p_pathspec proto = Some bytes"
  by (auto simp: ListFields_def split: option.splits)

text \<open>
  Claim C8, as amended. A failed decode leaves the event unchanged when the message is
  not an \<^verbatim>\<open>EventObject\<close> message. When it fails later (on an attribute whose value
  has no supported field, or on a \<^verbatim>\<open>source_short\<close> code without a name), no
  dynamic attribute has been stored: the store differs from the one before the call at
  most at the names of the fixed fields that this message lists (a scalar field that is
  set, \<^verbatim>\<open>source_short\<close> if the message has a code, \<^verbatim>\<open>pathspec\<close> if it has
  one), which the loop of lines 419-432 has already written; every other name, and
  \<^verbatim>\<open>parent_container\<close>, is as before. When the failure is that of an attribute, the
  loop has run to its end, and a scalar field the message lists is in the store with the
  value of the message.
\<close>

theorem FromProto_failure_frame:
  "FromProto enum ev Other_message = (ev, Some (RuntimeError ''Unsupported proto''))
   \<and> (\<forall>proto ev' err name.
         FromProto enum ev (EventObject_message proto) = (ev', Some err) \<longrightarrow>
         name \<notin> fst ` set (p_fields proto) \<longrightarrow>
         (name = ''source_short'' \<longrightarrow> p_source_short proto = None) \<longrightarrow>
         (name = ''pathspec'' \<longrightarrow> p_pathspec proto = None) \<longrightarrow>
         map_of (eo_attributes ev') name = map_of (eo_attributes ev) name
         \<and> eo_parent_container ev' = eo_parent_container ev)
   \<and> (\<forall>proto ev' name v.
         FromProto enum ev (EventObject_message proto)
           = (ev', Some (RuntimeError ''Unsupported proto attribute type.'')) \<longrightarrow>
         (name, v) \<in> set (p_fields proto) \<longrightarrow>
         (\<forall>v'. (name, v') \<in> set (p_fields proto) \<longrightarrow> v' = v) \<longrightarrow>
         (name = ''source_short'' \<longrightarrow> p_source_short proto = None) \<longrightarrow>
         (name = ''pathspec'' \<longrightarrow> p_pathspec proto = None) \<longrightarrow>
         map_of (eo_attributes ev') name = Some v)"
proof (intro conjI allI impI)
  show "FromProto enum ev Other_message = (ev, Some (RuntimeError ''Unsupported proto''))"
    by (simp add: FromProto_def)
next
  fix proto ev' err name
  assume f: "FromProto enum ev (EventObject_message proto) = (ev', Some err)"
    and n: "name \<notin> fst ` set (p_fields proto)"
      "name = ''source_short'' \<longrightarrow> p_source_short proto = None"
      "name = ''pathspec'' \<longrightarrow> p_pathspec proto = None"
  obtain store r where
    s: "FromProto_fields enum (ListFields proto) (eo_attributes ev) = (store, r)"
    by (cases "FromProto_fields enum (ListFields proto) (eo_attributes ev)")
  from f s have ev': "ev' = ev\<lparr>eo_attributes := store\<rparr>"
    by (auto simp: FromProto_def split: option.splits sum.splits)
  have n1: "\<forall>v. scalar_field name v \<notin> set (ListFields proto)"
    using n(1) by (force simp: ListFields_scalar)
  have n2: "name = ''source_short'' \<longrightarrow> (\<forall>code. source_short_field code \<notin> set (ListFields proto))"
    using n(2) by (simp add: ListFields_source_short)
  have n3: "name = ''pathspec'' \<longrightarrow> (\<forall>bytes. pathspec_field bytes \<notin> set (ListFields proto))"
    using n(3) by (simp add: ListFields_pathspec)
  from FromProto_fields_frame [OF s n1 n2 n3] ev'
  show "map_of (eo_attributes ev') name = map_of (eo_attributes ev) name" by simp
  from ev' show "eo_parent_container ev' = eo_parent_container ev" by simp
next
  fix proto ev' name v
  assume f: "FromProto enum ev (EventObject_message proto)
           = (ev', Some (RuntimeError ''Unsupported proto attribute type.''))"
    and n: "(name, v) \<in> set (p_fields proto)"
      "\<forall>v'. (name, v') \<in> set (p_fields proto) \<longrightarrow> v' = v"
      "name = ''source_short'' \<longrightarrow> p_source_short proto = None"
      "name = ''pathspec'' \<longrightarrow> p_pathspec proto = None"
  obtain store r where
    s: "FromProto_fields enum (ListFields proto) (eo_attributes ev) = (store, r)"
    by (cases "FromProto_fields enum (ListFields proto) (eo_attributes ev)")
  have r: "r = None"
  proof (cases r)
    case None
    then show ?thesis .
  next
    case (Some e)
    from FromProto_fields_error [OF s] Some have "r = Some KeyError" by simp
    with f s show ?thesis by (simp add: FromProto_def)
  qed
  from f s r have ev': "ev' = ev\<lparr>eo_attributes := store\<rparr>"
    by (auto simp: FromProto_def split: option.splits sum.splits)
  have n1: "scalar_field name v \<in> set (ListFields proto)"
    using n(1) by (simp add: ListFields_scalar)
  have n1': "\<forall>v'. scalar_field name v' \<in> set (ListFields proto) \<longrightarrow> v' = v"
    using n(2) by (simp add: ListFields_scalar)
  have n2: "name = ''source_short'' \<longrightarrow> (\<forall>code. source_short_field code \<notin> set (ListFields proto))"
    using n(3) by (simp add: ListFields_source_short)
  have n3: "name = ''pathspec'' \<longrightarrow> (\<forall>bytes. pathspec_field bytes \<notin> set (ListFields proto))"
    using n(4) by (simp add: ListFields_pathspec)
  from s r have "FromProto_fields enum (ListFields proto) (eo_attributes ev) = (store, None)"
    by simp
  from FromProto_fields_written [OF this n1 n1' n2 n3] ev'
  show "map_of (eo_attributes ev') name = Some v" by simp
qed

text \<open>
  Claim C8 as stated fails: decoding a message with the field \<^verbatim>\<open>timestamp\<close> and an
  attribute without a value into a fresh event raises \<^verbatim>\<open>RuntimeError\<close> and leaves
  the event with the attribute \<^verbatim>\<open>timestamp\<close>.
\<close>

theorem FromProto_partial_counterexample:
  "\<not> (\<forall>enum ev msg ev' err.
        FromProto enum ev msg = (ev', Some err) \<longrightarrow> eo_attributes ev' = eo_attributes ev)"
proof
  assume a: "\<forall>enum ev msg ev' err.
        FromProto enum ev msg = (ev', Some err) \<longrightarrow> eo_attributes ev' = eo_attributes ev"
  have "FromProto example_enum EventObject_init valueless_attribute_message =
      (EventObject_init\<lparr>eo_attributes := [(''timestamp'', PInt 5)]\<rparr>,
       Some (RuntimeError ''Unsupported proto attribute type.''))"
    by (simp add: FromProto_def valueless_attribute_message_def ListFields_def
        EventObject_proto_init_def EventObject_init_def)
  with a have "eo_attributes (EventObject_init\<lparr>eo_attributes := [(''timestamp'', PInt 5)]\<rparr>)
      = eo_attributes EventObject_init" by blast
  then show False by (simp add: EventObject_init_def)
qed

text \<open>
  The same message decoded into an event that holds a note and the timestamp 1: the
  decode fails, the note and the absence of \<^verbatim>\<open>source_short\<close> are as before, and the
  timestamp is now the 5 of the message.
\<close>

theorem FromProto_failure_frame_witness:
  "FromProto example_enum noted_event valueless_attribute_message =
      (noted_event\<lparr>eo_attributes := [(''note'', PStr ''old''), (''timestamp'', PInt 5)]\<rparr>,
       Some (RuntimeError ''Unsupported proto attribute type.''))
   \<and> map_of (eo_attributes noted_event) ''note'' = Some (PStr ''old'')
   \<and> map_of (eo_attributes noted_event) ''timestamp'' = Some (PInt 1)
   \<and> map_of (eo_attributes
         (noted_event\<lparr>eo_attributes := [(''note'', PStr ''old''), (''timestamp'', PInt 5)]\<rparr>))
        ''note'' = map_of (eo_attributes noted_event) ''note''
   \<and> map_of (eo_attributes
         (noted_event\<lparr>eo_attributes := [(''note'', PStr ''old''), (''timestamp'', PInt 5)]\<rparr>))
        ''source_short'' = map_of (eo_attributes noted_event) ''source_short''
   \<and> map_of (eo_attributes
         (noted_event\<lparr>eo_attributes := [(''note'', PStr ''old''), (''timestamp'', PInt 5)]\<rparr>))
        ''timestamp'' = Some (PInt 5)"
proof -
  let ?ev' = "noted_event\<lparr>eo_attributes := [(''note'', PStr ''old''), (''timestamp'', PInt 5)]\<rparr>"
  let ?p = "EventObject_proto_init
          \<lparr>p_fields := [(''timestamp'', PInt 5)],
           p_attributes := [Attribute (Some ''unknown'') None None None None None None]\<rparr>"
  have f: "FromProto example_enum noted_event (EventObject_message ?p) =
      (?ev', Some (RuntimeError ''Unsupported proto attribute type.''))"
    by (simp add: FromProto_def ListFields_def EventObject_proto_init_def noted_event_def
        EventObject_init_def)
  have n1: "''note'' \<notin> fst ` set (p_fields ?p)" by simp
  have n2: "p_source_short ?p = None" if "''note'' = ''source_short''" using that by simp
  have n3: "p_pathspec ?p = None" if "''note'' = ''pathspec''" using that by simp
  have s1: "''source_short'' \<notin> fst ` set (p_fields ?p)" by simp
  have s2: "p_source_short ?p = None" if "''source_short'' = ''source_short''"
    by (simp add: EventObject_proto_init_def)
  have s3: "p_pathspec ?p = None" if "''source_short'' = ''pathspec''" using that by simp
  have t1: "(''timestamp'', PInt 5) \<in> set (p_fields ?p)" by simp
  have t2: "v' = PInt 5" if "(''timestamp'', v') \<in> set (p_fields ?p)" for v'
    using that by simp
  have t3: "p_source_short ?p = None" if "''timestamp'' = ''source_short''" using that by simp
  have t4: "p_pathspec ?p = None" if "''timestamp'' = ''pathspec''" using that by simp
  note frame = FromProto_failure_frame [of example_enum noted_event, THEN conjunct2,
      THEN conjunct1, rule_format]
  note written = FromProto_failure_frame [of example_enum noted_event, THEN conjunct2,
      THEN conjunct2, rule_format]
  from frame [OF f n1 n2 n3]
  have u: "map_of (eo_attributes ?ev') ''note'' = map_of (eo_attributes noted_event) ''note''"
    by (rule conjunct1)
  from frame [OF f s1 s2 s3]
  have s: "map_of (eo_attributes ?ev') ''source_short''
      = map_of (eo_attributes noted_event) ''source_short''"
    by (rule conjunct1)
  from written [OF f t1 t2 t3 t4]
  have t: "map_of (eo_attributes ?ev') ''timestamp'' = Some (PInt 5)" .
  have o: "map_of (eo_attributes noted_event) ''note'' = Some (PStr ''old'')"
    by (simp add: noted_event_def)
  have o': "map_of (eo_attributes noted_event) ''timestamp'' = Some (PInt 1)"
    by (simp add: noted_event_def)
  from f have f': "FromProto example_enum noted_event valueless_attribute_message =
      (?ev', Some (RuntimeError ''Unsupported proto attribute type.''))"
    by (simp only: valueless_attribute_message_def)
  show ?thesis by (intro conjI f' o o' u s t)
qed







end
